theory Spec2Isabelle
  imports Main "HOL-Library.AList"
begin

section \<open>Values, paths and the filesystem\<close>

text \<open>
  The validators of \<^verbatim>\<open>provisioner/commands/validator/validator.py\<close> walk a
  filesystem path and raise \<^verbatim>\<open>ValidationError\<close> on the first deviation from a
  declared scheme. The embedding keeps the classes of that file as constructors of one
  datatype, exceptions as values of a sum type, and the filesystem, the hash function and
  the content parsers (none of which the file defines) as an environment.
\<close>

subsection \<open>pathlib paths\<close>

text \<open>
  A \<^verbatim>\<open>pathlib.Path\<close> is its anchor (absolute or not) and its parts. The
  operator \<^verbatim>\<open>path / sub_path\<close> appends the parts of a relative
  \<^verbatim>\<open>sub_path\<close> and yields \<^verbatim>\<open>sub_path\<close> itself when that one is
  absolute.
\<close>

datatype path = Path (is_absolute: bool) (parts: "string list")

definition path_join :: "path \<Rightarrow> path \<Rightarrow> path" where
  "path_join p q =
     (if is_absolute q then q else Path (is_absolute p) (parts p @ parts q))"

subsection \<open>Parsed content\<close>

text \<open>
  What the YAML and JSON loaders return: scalars, lists and dicts. A dict keeps its
  insertion order, so it is an association list; keys are values themselves (YAML allows
  keys that are not strings). Floats are left out of the model.
\<close>

datatype pyval =
    VNone
  | VBool bool
  | VInt int
  | VStr string
  | VList "pyval list"
  | VDict "(pyval \<times> pyval) list"

type_synonym dict = "(pyval \<times> pyval) list"

datatype pytype = NoneType | bool_t | int_t | str_t | list_t | dict_t

fun type_of :: "pyval \<Rightarrow> pytype" where
  "type_of VNone = NoneType"
| "type_of (VBool _) = bool_t"
| "type_of (VInt _) = int_t"
| "type_of (VStr _) = str_t"
| "type_of (VList _) = list_t"
| "type_of (VDict _) = dict_t"

text \<open>\<^verbatim>\<open>isinstance\<close>: \<^verbatim>\<open>bool\<close> is a subclass of \<^verbatim>\<open>int\<close>.\<close>

definition isinstance :: "pyval \<Rightarrow> pytype \<Rightarrow> bool" where
  "isinstance v t = (type_of v = t \<or> (t = int_t \<and> type_of v = bool_t))"

text \<open>
  The builtin \<^verbatim>\<open>str\<close>, used as the converter of the \<^verbatim>\<open>VERSION\<close> and
  \<^verbatim>\<open>BUILD\<close> fields. On a string it is the identity; \<^verbatim>\<open>None\<close>, booleans
  and integers print as Python prints them; the text of a list or a dict is a parameter
  (\<open>container_text\<close>), so that every result holds however containers are rendered.
\<close>

definition digit_char :: "nat \<Rightarrow> char" where
  "digit_char d = char_of (48 + d)"

fun decimal :: "nat \<Rightarrow> string" where
  "decimal n = (if n < 10 then [digit_char n] else decimal (n div 10) @ [digit_char (n mod 10)])"

declare decimal.simps [simp del]

fun py_str :: "(pyval \<Rightarrow> string) \<Rightarrow> pyval \<Rightarrow> string" where
  "py_str container_text (VStr s) = s"
| "py_str container_text VNone = ''None''"
| "py_str container_text (VBool b) = (if b then ''True'' else ''False'')"
| "py_str container_text (VInt i) =
     (if i < 0 then CHR ''-'' # decimal (nat (- i)) else decimal (nat i))"
| "py_str container_text v = container_text v"

subsection \<open>Exceptions\<close>

text \<open>
  One constructor per exception class raised by the module or by the calls it makes
  (\<^verbatim>\<open>LoaderError\<close> stands for whatever a content loader raises on malformed bytes).
  The reason of a
  \<^verbatim>\<open>ValidationError\<close> names the \<^verbatim>\<open>raise\<close> statement it comes from; the two
  statements of \<^verbatim>\<open>ContentFileValidator.validate\<close> carry the caught exception.
\<close>

datatype type_error =
    MissingArguments "string list"
  | UnexpectedKeyword pyval
  | TooManyPositional
  | NotInstanceOf string pytype
  | ExpectedString string

datatype error =
    ValidationError reason
  | TypeError type_error
  | ValueError string
  | AttributeError
  | KeyError pyval
  | FileNotFoundError path
  | IsADirectoryError path
  | LoaderError
and reason =
    ShouldExist path
  | NotRegularFile path
  | NotDirectory path
  | HashSumMismatch path string string
  | ContentLoadFailed error
  | ContentSchemeFailed error
  | UnexpectedTopLevel pytype

type_synonym outcome = "error + unit"

definition is_ValidationError :: "error \<Rightarrow> bool" where
  "is_ValidationError e = (case e of ValidationError _ \<Rightarrow> True | _ \<Rightarrow> False)"

section \<open>Content schemes\<close>

subsection \<open>Regular expressions of the field validators\<close>

text \<open>
  The two patterns of the release-info scheme are built from the anchors
  \<^verbatim>\<open>^\<close> and \<^verbatim>\<open>$\<close>, an escaped literal and the repetition
  \<^verbatim>\<open>[a-b]+\<close> of a character range. \<open>matches_from\<close> is a backtracking matcher:
  it says whether the items match the rest of the string up to its very end, which is what
  \<^verbatim>\<open>re.fullmatch\<close> (the match function \<^verbatim>\<open>attr.validators.matches_re\<close>
  uses by default) asks for. \<^verbatim>\<open>$\<close> holds at the end of the string and before a
  final newline; \<^verbatim>\<open>^\<close> holds at the start only.
\<close>

datatype re_item = Bol | Eol | Lit char | PlusRange char char

definition in_range :: "char \<Rightarrow> char \<Rightarrow> char \<Rightarrow> bool" where
  "in_range lo hi c \<longleftrightarrow> (of_char lo :: nat) \<le> of_char c \<and> (of_char c :: nat) \<le> of_char hi"

fun matches_from :: "re_item list \<Rightarrow> bool \<Rightarrow> string \<Rightarrow> bool" where
  "matches_from [] at_start rest \<longleftrightarrow> rest = []"
| "matches_from (Bol # items) at_start rest \<longleftrightarrow> at_start \<and> matches_from items at_start rest"
| "matches_from (Eol # items) at_start rest \<longleftrightarrow>
     (rest = [] \<or> rest = [CHR 0x0A]) \<and> matches_from items at_start rest"
| "matches_from (Lit c # items) at_start [] \<longleftrightarrow> False"
| "matches_from (Lit c # items) at_start (x # xs) \<longleftrightarrow> x = c \<and> matches_from items False xs"
| "matches_from (PlusRange lo hi # items) at_start [] \<longleftrightarrow> False"
| "matches_from (PlusRange lo hi # items) at_start (x # xs) \<longleftrightarrow>
     in_range lo hi x \<and>
     (matches_from (PlusRange lo hi # items) False xs \<or> matches_from items False xs)"

definition fullmatch :: "re_item list \<Rightarrow> string \<Rightarrow> bool" where
  "fullmatch pattern s = matches_from pattern True s"

subsection \<open>Attributes of an attrs class\<close>

text \<open>
  A scheme class is the list of its \<^verbatim>\<open>attr.ib\<close> declarations, in order. A default
  of \<open>None\<close> is a mandatory attribute; \<open>Some VNone\<close> is \<^verbatim>\<open>default=None\<close>.
\<close>

datatype attr_validator =
    instance_of pytype
  | matches_re "re_item list"
  | optional attr_validator

datatype attr_converter = str_converter

record attrib =
  name :: string
  validator :: "attr_validator option"
  converter :: "attr_converter option"
  default :: "pyval option"

type_synonym scheme_class = "attrib list"

text \<open>
  The validators of the attrs library (vendored as \<^verbatim>\<open>provisioner.vendor.attr\<close>,
  outside the validator module), as the library documents them. A validator returns
  \<open>None\<close> when the value passes. \<^verbatim>\<open>instance_of\<close> raises
  \<^verbatim>\<open>TypeError\<close>, \<^verbatim>\<open>matches_re\<close> raises \<^verbatim>\<open>ValueError\<close> on a
  string that does not match (and \<^verbatim>\<open>TypeError\<close> from the \<^verbatim>\<open>re\<close>
  module on a value that is not a string), \<^verbatim>\<open>optional\<close> lets
  \<^verbatim>\<open>None\<close> pass.
\<close>

fun run_validator :: "attr_validator \<Rightarrow> string \<Rightarrow> pyval \<Rightarrow> error option" where
  "run_validator (instance_of t) field v =
     (if isinstance v t then None else Some (TypeError (NotInstanceOf field t)))"
| "run_validator (matches_re pattern) field v =
     (case v of
        VStr s \<Rightarrow> if fullmatch pattern s then None else Some (ValueError field)
      | _ \<Rightarrow> Some (TypeError (ExpectedString field)))"
| "run_validator (optional inner) field v =
     (if v = VNone then None else run_validator inner field v)"

definition convert :: "(pyval \<Rightarrow> string) \<Rightarrow> attr_converter option \<Rightarrow> pyval \<Rightarrow> pyval" where
  "convert container_text c v =
     (case c of None \<Rightarrow> v | Some str_converter \<Rightarrow> VStr (py_str container_text v))"

text \<open>
  The generated \<^verbatim>\<open>__init__\<close>. Python binds the arguments first: a keyword that
  is no attribute, too many positional arguments and a mandatory attribute left without a
  value are each a \<^verbatim>\<open>TypeError\<close>. The body then stores every converted value and
  runs the validators in declaration order; the first one that fails raises.
\<close>

definition field_keys :: "scheme_class \<Rightarrow> pyval list" where
  "field_keys cls = map (\<lambda>a. VStr (name a)) cls"

definition lookup_kwarg :: "dict \<Rightarrow> attrib \<Rightarrow> pyval option" where
  "lookup_kwarg kwargs a =
     (case map_of kwargs (VStr (name a)) of Some v \<Rightarrow> Some v | None \<Rightarrow> default a)"

definition bind_kwargs :: "scheme_class \<Rightarrow> dict \<Rightarrow> error + (attrib \<times> pyval) list" where
  "bind_kwargs cls kwargs =
     (case find (\<lambda>k. k \<notin> set (field_keys cls)) (map fst kwargs) of
        Some k \<Rightarrow> Inl (TypeError (UnexpectedKeyword k))
      | None \<Rightarrow>
          (case filter (\<lambda>a. lookup_kwarg kwargs a = None) cls of
             [] \<Rightarrow> Inr (List.map_filter (\<lambda>a. map_option (Pair a) (lookup_kwarg kwargs a)) cls)
           | missing \<Rightarrow> Inl (TypeError (MissingArguments (map name missing)))))"

fun bind_positional :: "scheme_class \<Rightarrow> pyval list \<Rightarrow> (attrib \<times> pyval option) list option" where
  "bind_positional [] [] = Some []"
| "bind_positional [] (v # vs) = None"
| "bind_positional (a # cls) [] = map_option (Cons (a, default a)) (bind_positional cls [])"
| "bind_positional (a # cls) (v # vs) = map_option (Cons (a, Some v)) (bind_positional cls vs)"

definition bind_args :: "scheme_class \<Rightarrow> pyval list \<Rightarrow> error + (attrib \<times> pyval) list" where
  "bind_args cls args =
     (case bind_positional cls args of
        None \<Rightarrow> Inl (TypeError TooManyPositional)
      | Some bound \<Rightarrow>
          (case filter (\<lambda>(a, v). v = None) bound of
             [] \<Rightarrow> Inr (List.map_filter (\<lambda>(a, v). map_option (Pair a) v) bound)
           | missing \<Rightarrow> Inl (TypeError (MissingArguments (map (name \<circ> fst) missing)))))"

fun run_validators :: "(attrib \<times> pyval) list \<Rightarrow> error option" where
  "run_validators [] = None"
| "run_validators ((a, v) # rest) =
     (case validator a of
        None \<Rightarrow> run_validators rest
      | Some check \<Rightarrow>
          (case run_validator check (name a) v of
             Some e \<Rightarrow> Some e
           | None \<Rightarrow> run_validators rest))"

definition attrs_init ::
  "(pyval \<Rightarrow> string) \<Rightarrow> (attrib \<times> pyval) list \<Rightarrow> error + (string \<times> pyval) list" where
  "attrs_init container_text bound =
     (let stored = map (\<lambda>(a, v). (a, convert container_text (converter a) v)) bound
      in case run_validators stored of
           Some e \<Rightarrow> Inl e
         | None \<Rightarrow> Inr (map (\<lambda>(a, v). (name a, v)) stored))"

subsection \<open>\<^verbatim>\<open>FileContentScheme.from_args\<close>\<close>

text \<open>
  An instance holds the attribute values and the dict stored through
  \<^verbatim>\<open>_unexpected_attributes\<close>. \<^verbatim>\<open>from_args\<close> pops the keys that are no
  attribute out of the caller's dict, so the model returns the dict as the call leaves it
  next to the result. The loop runs over a Python set, whose order is not specified; the
  model takes the keys in the order of the dict, and the statements below only read the
  collected dict by key.
\<close>

record scheme_instance =
  attrs :: "(string \<times> pyval) list"
  unexpected_attrs :: dict

definition unexpected_keys :: "scheme_class \<Rightarrow> dict \<Rightarrow> pyval list" where
  "unexpected_keys cls data = filter (\<lambda>k. k \<notin> set (field_keys cls)) (remdups (map fst data))"

fun pop_unexpected :: "pyval list \<Rightarrow> dict \<Rightarrow> dict \<Rightarrow> error option \<times> dict \<times> dict" where
  "pop_unexpected [] unexpected data = (None, unexpected, data)"
| "pop_unexpected (k # ks) unexpected data =
     (case map_of data k of
        None \<Rightarrow> (Some (KeyError k), unexpected, data)
      | Some v \<Rightarrow> pop_unexpected ks (AList.update k v unexpected) (AList.delete k data))"

definition new_instance :: "dict \<Rightarrow> error + (string \<times> pyval) list \<Rightarrow> error + scheme_instance" where
  "new_instance unexpected r =
     (case r of
        Inl e \<Rightarrow> Inl e
      | Inr obj \<Rightarrow> Inr \<lparr>attrs = obj, unexpected_attrs = unexpected\<rparr>)"

definition construct ::
  "(pyval \<Rightarrow> string) \<Rightarrow> error + (attrib \<times> pyval) list \<Rightarrow> error + (string \<times> pyval) list" where
  "construct container_text bound =
     (case bound of Inl e \<Rightarrow> Inl e | Inr b \<Rightarrow> attrs_init container_text b)"

definition from_args ::
  "(pyval \<Rightarrow> string) \<Rightarrow> scheme_class \<Rightarrow> pyval \<Rightarrow> (error + scheme_instance) \<times> pyval" where
  "from_args container_text cls data =
     (case data of
        VDict d \<Rightarrow>
          (case pop_unexpected (unexpected_keys cls d) [] d of
             (Some e, unexpected, d') \<Rightarrow> (Inl e, VDict d')
           | (None, unexpected, d') \<Rightarrow>
               (new_instance unexpected (construct container_text (bind_kwargs cls d')), VDict d'))
      | VList xs \<Rightarrow> (new_instance [] (construct container_text (bind_args cls xs)), VList xs)
      | _ \<Rightarrow> (Inl (ValidationError (UnexpectedTopLevel (type_of data))), data))"

subsection \<open>\<^verbatim>\<open>ReleaseInfoContentScheme\<close>\<close>

definition VERSION_RE :: "re_item list" where
  "VERSION_RE =
     [Bol, PlusRange CHR ''0'' CHR ''9'', Lit CHR ''.'', PlusRange CHR ''0'' CHR ''9'',
      Lit CHR ''.'', PlusRange CHR ''0'' CHR ''9'', Eol]"

definition BUILD_RE :: "re_item list" where
  "BUILD_RE = [Bol, PlusRange CHR ''0'' CHR ''9'', Eol]"

definition ReleaseInfoContentScheme :: scheme_class where
  "ReleaseInfoContentScheme =
     [\<lparr>name = ''NAME'', validator = Some (instance_of str_t), converter = None, default = None\<rparr>,
      \<lparr>name = ''VERSION'', validator = Some (matches_re VERSION_RE),
        converter = Some str_converter, default = None\<rparr>,
      \<lparr>name = ''BUILD'', validator = Some (matches_re BUILD_RE),
        converter = Some str_converter, default = None\<rparr>,
      \<lparr>name = ''OS'', validator = Some (instance_of str_t), converter = None, default = None\<rparr>,
      \<lparr>name = ''COMPONENTS'', validator = Some (instance_of list_t), converter = None,
        default = None\<rparr>,
      \<lparr>name = ''RELEASE'', validator = Some (optional (instance_of str_t)), converter = None,
        default = Some VNone\<rparr>]"

section \<open>Path validators\<close>

subsection \<open>The environment\<close>

text \<open>
  A path resolves to nothing, to a regular file with its bytes or to a directory (what
  \<^verbatim>\<open>exists\<close>, \<^verbatim>\<open>is_file\<close> and \<^verbatim>\<open>is_dir\<close> see after following
  symbolic links). Other kinds of file and failing system calls are outside the model.
  The members of \<^verbatim>\<open>HashType\<close> are declared outside the validator module, so the
  hash type is a type parameter \<open>'h\<close> and \<open>hashlib\<close> maps it to a hash function.
  \<open>loads\<close> is the parser of a content type on the bytes of a file: \<open>None\<close> when the
  bytes are malformed.
\<close>

datatype fs_entry = RegularFile string | Directory

datatype ContentType = YAML | JSON

record 'h env =
  fs :: "path \<Rightarrow> fs_entry option"
  hashlib :: "'h \<Rightarrow> string \<Rightarrow> string"
  loads :: "ContentType \<Rightarrow> string \<Rightarrow> pyval option"
  container_text :: "pyval \<Rightarrow> string"

definition exists_path :: "'h env \<Rightarrow> path \<Rightarrow> bool" where
  "exists_path env p \<longleftrightarrow> fs env p \<noteq> None"

definition is_file :: "'h env \<Rightarrow> path \<Rightarrow> bool" where
  "is_file env p \<longleftrightarrow> (case fs env p of Some (RegularFile _) \<Rightarrow> True | _ \<Rightarrow> False)"

definition is_dir :: "'h env \<Rightarrow> path \<Rightarrow> bool" where
  "is_dir env p \<longleftrightarrow> fs env p = Some Directory"

text \<open>Opening a path for reading, as the builtin \<^verbatim>\<open>open\<close> does.\<close>

definition read_bytes :: "'h env \<Rightarrow> path \<Rightarrow> error + string" where
  "read_bytes env p =
     (case fs env p of
        None \<Rightarrow> Inl (FileNotFoundError p)
      | Some Directory \<Rightarrow> Inl (IsADirectoryError p)
      | Some (RegularFile bytes) \<Rightarrow> Inr bytes)"

text \<open>
  Modelled from the spec: \<^verbatim>\<open>utils.calc_hash\<close> is not part of the validator
  module. It opens the file, feeds its bytes in chunks to the hash object of the given
  type and returns the digest of the whole content.
\<close>

definition calc_hash :: "'h env \<Rightarrow> path \<Rightarrow> 'h \<Rightarrow> error + string" where
  "calc_hash env p hash_type =
     (case read_bytes env p of
        Inl e \<Rightarrow> Inl e
      | Inr bytes \<Rightarrow> Inr (hashlib env hash_type bytes))"

text \<open>\<^verbatim>\<open>hmac.compare_digest\<close> on two byte strings: equality, in constant time.\<close>

definition compare_digest :: "string \<Rightarrow> string \<Rightarrow> bool" where
  "compare_digest a b \<longleftrightarrow> a = b"

text \<open>
  Modelled from the spec: \<^verbatim>\<open>utils.load_yaml\<close> and \<^verbatim>\<open>utils.load_json\<close>,
  the entries of \<^verbatim>\<open>_CONTENT_LOADER\<close>, are not part of the validator module. A
  loader reads the bytes at the path and decodes them under its content type; a file that
  cannot be read and bytes that cannot be decoded each raise an exception.
\<close>

definition CONTENT_LOADER :: "'h env \<Rightarrow> ContentType \<Rightarrow> path \<Rightarrow> error + pyval" where
  "CONTENT_LOADER env content_type p =
     (case read_bytes env p of
        Inl e \<Rightarrow> Inl e
      | Inr bytes \<Rightarrow>
          (case loads env content_type bytes of
             None \<Rightarrow> Inl LoaderError
           | Some content \<Rightarrow> Inr content))"

subsection \<open>The validator classes\<close>

text \<open>
  One constructor per class, with the attributes in declaration order.
  \<^verbatim>\<open>HashSumValidator\<close> inherits \<open>required\<close> and \<open>content_validator\<close> from
  \<^verbatim>\<open>FileValidator\<close>. A scheme dict keeps insertion order: an association list from
  sub-paths to validators. A content validator is called through
  \<^verbatim>\<open>PathValidator.__call__\<close>, that is, through its \<^verbatim>\<open>validate\<close>.
\<close>

datatype 'h PathValidator =
    FileValidator bool "'h PathValidator option"
  | DirValidator "(path \<times> 'h PathValidator) list option" bool
  | FileSchemeValidator "(path \<times> 'h PathValidator) list option"
  | HashSumValidator bool "'h PathValidator option" string 'h
  | ContentFileValidator scheme_class ContentType

text \<open>
  \<open>FileValidator_validate\<close> is the body of \<^verbatim>\<open>FileValidator.validate\<close>, which
  \<^verbatim>\<open>HashSumValidator.validate\<close> runs first through \<^verbatim>\<open>super()\<close>.
  \<open>validate_items\<close> is the loop over the items of a scheme dict: an exception raised
  for one child leaves the loop. Logging is not modelled.
\<close>

function
  FileValidator_validate :: "'h env \<Rightarrow> bool \<Rightarrow> 'h PathValidator option \<Rightarrow> path \<Rightarrow> outcome" and
  validate :: "'h env \<Rightarrow> 'h PathValidator \<Rightarrow> path \<Rightarrow> outcome" and
  validate_items :: "'h env \<Rightarrow> path \<Rightarrow> (path \<times> 'h PathValidator) list \<Rightarrow> outcome"
where
  "FileValidator_validate env required content_validator p =
     (if \<not> exists_path env p then
        (if required then Inl (ValidationError (ShouldExist p)) else Inr ())
      else if \<not> is_file env p then Inl (ValidationError (NotRegularFile p))
      else
        (case content_validator of
           None \<Rightarrow> Inr ()
         | Some v \<Rightarrow> validate env v p))"
| "validate env (FileValidator required content_validator) p =
     FileValidator_validate env required content_validator p"
| "validate env (DirValidator files_scheme required) p =
     (if \<not> exists_path env p then
        (if required then Inl (ValidationError (ShouldExist p)) else Inr ())
      else if \<not> is_dir env p then Inl (ValidationError (NotDirectory p))
      else
        (case files_scheme of
           None \<Rightarrow> Inr ()
         | Some items \<Rightarrow> if items = [] then Inr () else validate_items env p items))"
| "validate env (FileSchemeValidator scheme) p =
     (case scheme of
        None \<Rightarrow> Inl AttributeError
      | Some items \<Rightarrow> validate_items env p items)"
| "validate env (HashSumValidator required content_validator hash_sum hash_type) p =
     (case FileValidator_validate env required content_validator p of
        Inl e \<Rightarrow> Inl e
      | Inr _ \<Rightarrow>
          (case calc_hash env p hash_type of
             Inl e \<Rightarrow> Inl e
           | Inr digest \<Rightarrow>
               if \<not> compare_digest digest hash_sum
               then Inl (ValidationError (HashSumMismatch p digest hash_sum))
               else Inr ()))"
| "validate env (ContentFileValidator scheme content_type) p =
     (case CONTENT_LOADER env content_type p of
        Inl e \<Rightarrow> Inl (ValidationError (ContentLoadFailed e))
      | Inr content \<Rightarrow>
          (case fst (from_args (container_text env) scheme content) of
             Inl (TypeError t) \<Rightarrow> Inl (ValidationError (ContentSchemeFailed (TypeError t)))
           | Inl e \<Rightarrow> Inl e
           | Inr _ \<Rightarrow> Inr ()))"
| "validate_items env p [] = Inr ()"
| "validate_items env p ((sub_path, v) # items) =
     (case validate env v (path_join p sub_path) of
        Inl e \<Rightarrow> Inl e
      | Inr _ \<Rightarrow> validate_items env p items)"
  by pat_completeness auto

termination
  by (relation "measure (\<lambda>x. case x of
         Inl (env, required, content_validator, p) \<Rightarrow> 2 * size_option size content_validator + 1
       | Inr (Inl (env, v, p)) \<Rightarrow> 2 * size v
       | Inr (Inr (env, p, items)) \<Rightarrow> 2 * size_list (size_prod (\<lambda>_. 0) size) items + 1)")
     auto

subsection \<open>Presets\<close>

definition YumRepoDataValidator :: "'h PathValidator" where
  "YumRepoDataValidator =
     DirValidator (Some [(Path False [''repomd.xml''], FileValidator True None)]) True"

definition ReleaseInfoValidator :: "bool \<Rightarrow> ContentType \<Rightarrow> 'h PathValidator" where
  "ReleaseInfoValidator required content_type =
     FileValidator required (Some (ContentFileValidator ReleaseInfoContentScheme content_type))"

section \<open>A worked example\<close>

text \<open>
  A repository directory with its index file and two release-info files, a parser that
  knows the two contents, and a toy hash function. The release-info content is the one of
  the end-to-end scenario, with the version as a parameter.
\<close>

definition release_info :: "string \<Rightarrow> dict" where
  "release_info version =
     [(VStr ''NAME'', VStr ''x''), (VStr ''VERSION'', VStr version), (VStr ''BUILD'', VStr ''15''),
      (VStr ''OS'', VStr ''linux''), (VStr ''COMPONENTS'', VList [VStr ''a'', VStr ''b''])]"

definition example_fs :: "path \<Rightarrow> fs_entry option" where
  "example_fs =
     map_of
       [(Path True [''repo''], Directory),
        (Path True [''repo'', ''repomd.xml''], RegularFile ''<repomd/>''),
        (Path True [''repo'', ''RELEASE.INFO''], RegularFile ''VERSION: 2.0.1''),
        (Path True [''repo'', ''OLD.INFO''], RegularFile ''VERSION: 2.0'')]"

definition example_loads :: "ContentType \<Rightarrow> string \<Rightarrow> pyval option" where
  "example_loads content_type bytes =
     (if bytes = ''VERSION: 2.0.1'' then Some (VDict (release_info ''2.0.1''))
      else if bytes = ''VERSION: 2.0'' then Some (VDict (release_info ''2.0''))
      else None)"

definition example_env :: "string env" where
  "example_env =
     \<lparr>fs = example_fs, hashlib = (\<lambda>hash_type bytes. rev bytes), loads = example_loads,
      container_text = (\<lambda>v. [])\<rparr>"

text \<open>
  The value a dict declares for an attribute: its entry under the attribute's name, or else
  the default of the attribute.
\<close>

definition declared_value :: "dict \<Rightarrow> attrib \<Rightarrow> pyval option" where
  "declared_value data a =
     (case map_of data (VStr (name a)) of Some v \<Rightarrow> Some v | None \<Rightarrow> default a)"

definition VERSION_attrib :: attrib where
  "VERSION_attrib = \<lparr>name = ''VERSION'', validator = Some (matches_re VERSION_RE),
        converter = Some str_converter, default = None\<rparr>"

section \<open>The field formats in the words of the specification\<close>

text \<open>
  "One or more digits" and "three dot-separated runs of digits", stated without the
  regular expressions: a string is cut at every dot, as \<^verbatim>\<open>str.split\<close> does, and each
  piece must be a non-empty run of the characters 0 to 9.
\<close>

definition is_digit :: "char \<Rightarrow> bool" where
  "is_digit c \<longleftrightarrow> c \<in> set ''0123456789''"

definition digits_only :: "string \<Rightarrow> bool" where
  "digits_only s \<longleftrightarrow> s \<noteq> [] \<and> list_all is_digit s"

fun split_dots :: "string \<Rightarrow> string list" where
  "split_dots [] = [[]]"
| "split_dots (c # cs) =
     (if c = CHR ''.'' then [] # split_dots cs
      else (case split_dots cs of [] \<Rightarrow> [[c]] | w # ws \<Rightarrow> (c # w) # ws))"

definition three_dotted_numbers :: "string \<Rightarrow> bool" where
  "three_dotted_numbers s \<longleftrightarrow>
     (case split_dots s of
        [a, b, c] \<Rightarrow> digits_only a \<and> digits_only b \<and> digits_only c
      | _ \<Rightarrow> False)"

section \<open>The exceptions a validation can end in\<close>

definition escapes :: "error \<Rightarrow> bool" where
  "escapes e \<longleftrightarrow>
     (case e of
        ValidationError _ \<Rightarrow> True
      | AttributeError \<Rightarrow> True
      | ValueError _ \<Rightarrow> True
      | FileNotFoundError _ \<Rightarrow> True
      | _ \<Rightarrow> False)"

section \<open>Properties\<close>

subsection \<open>Existence and kind of a path\<close>

lemma fs_cases [simp]:
  "exists_path env p \<longleftrightarrow> fs env p \<noteq> None"
  "is_dir env p \<longleftrightarrow> fs env p = Some Directory"
  "is_file env p \<longleftrightarrow> (\<exists>bytes. fs env p = Some (RegularFile bytes))"
  by (auto simp: exists_path_def is_dir_def is_file_def split: option.splits fs_entry.splits)

text \<open>
  C7: on a path that does not exist, a \<^verbatim>\<open>FileValidator\<close> with
  \<^verbatim>\<open>required=False\<close> succeeds and one with \<^verbatim>\<open>required=True\<close> raises the
  \<^verbatim>\<open>ValidationError\<close> "File ... should exist", whatever its content validator.
\<close>

theorem FileValidator_missing_path:
  "fs env p = None \<Longrightarrow>
     validate env (FileValidator False content_validator) p = Inr () \<and>
     validate env (FileValidator True content_validator) p = Inl (ValidationError (ShouldExist p))"
  by simp

theorem FileValidator_missing_path_witness:
  "fs example_env (Path True [''repo'', ''absent'']) = None \<and>
   validate example_env (FileValidator False None) (Path True [''repo'', ''absent'']) = Inr () \<and>
   validate example_env (FileValidator True None) (Path True [''repo'', ''absent'']) =
     Inl (ValidationError (ShouldExist (Path True [''repo'', ''absent''])))"
proof -
  have absent: "fs example_env (Path True [''repo'', ''absent'']) = None"
    by (simp add: example_env_def example_fs_def)
  from FileValidator_missing_path [OF absent, of None] absent show ?thesis by simp
qed

text \<open>
  C8: on a path that is a regular file, a \<^verbatim>\<open>DirValidator\<close> raises the
  \<^verbatim>\<open>ValidationError\<close> "... is not a directory", whatever its \<^verbatim>\<open>required\<close>
  flag and its files scheme.
\<close>

theorem DirValidator_on_regular_file:
  "fs env f = Some (RegularFile bytes) \<Longrightarrow>
     validate env (DirValidator files_scheme required) f = Inl (ValidationError (NotDirectory f))"
  by simp

theorem DirValidator_on_regular_file_witness:
  "fs example_env (Path True [''repo'', ''repomd.xml'']) = Some (RegularFile ''<repomd/>'') \<and>
   validate example_env (DirValidator None False) (Path True [''repo'', ''repomd.xml'']) =
     Inl (ValidationError (NotDirectory (Path True [''repo'', ''repomd.xml''])))"
proof -
  have regular:
    "fs example_env (Path True [''repo'', ''repomd.xml'']) = Some (RegularFile ''<repomd/>'')"
    by (simp add: example_env_def example_fs_def)
  from DirValidator_on_regular_file [OF regular, of None False] regular show ?thesis by simp
qed

text \<open>
  C9: a \<^verbatim>\<open>FileSchemeValidator\<close> whose scheme is \<^verbatim>\<open>None\<close> raises
  \<^verbatim>\<open>AttributeError\<close>, which is no \<^verbatim>\<open>ValidationError\<close>, on every path; a
  \<^verbatim>\<open>DirValidator\<close> whose files scheme is \<^verbatim>\<open>None\<close> succeeds on every
  existing directory.
\<close>

theorem absent_scheme_asymmetry:
  "validate env (FileSchemeValidator None) p = Inl AttributeError \<and>
   \<not> is_ValidationError AttributeError \<and>
   (fs env d = Some Directory \<longrightarrow> validate env (DirValidator None required) d = Inr ())"
  by (simp add: is_ValidationError_def)

theorem absent_scheme_asymmetry_witness:
  "validate example_env (FileSchemeValidator None) (Path True [''repo'']) = Inl AttributeError \<and>
   fs example_env (Path True [''repo'']) = Some Directory \<and>
   validate example_env (DirValidator None True) (Path True [''repo'']) = Inr ()"
proof -
  have dir: "fs example_env (Path True [''repo'']) = Some Directory"
    by (simp add: example_env_def example_fs_def)
  from absent_scheme_asymmetry [of example_env "Path True [''repo'']" "Path True [''repo'']" True] dir
  show ?thesis by blast
qed

subsection \<open>Hash sums\<close>

text \<open>
  C3: a \<^verbatim>\<open>HashSumValidator\<close> (its inherited content validator is
  \<^verbatim>\<open>None\<close>: the attribute is no argument of the constructor) succeeds exactly when
  the path exists, is a regular file and the digest of the file under the configured hash
  type equals the configured hash sum; on a directory it raises the
  \<^verbatim>\<open>ValidationError\<close> "... is not a regular file".
\<close>

theorem HashSumValidator_succeeds_iff:
  "(validate env (HashSumValidator required None hash_sum hash_type) p = Inr () \<longleftrightarrow>
      exists_path env p \<and> is_file env p \<and> calc_hash env p hash_type = Inr hash_sum) \<and>
   (is_dir env p \<longrightarrow>
      validate env (HashSumValidator required None hash_sum hash_type) p =
        Inl (ValidationError (NotRegularFile p)))"
  by (auto simp: calc_hash_def read_bytes_def compare_digest_def
      split: option.splits fs_entry.splits)

theorem HashSumValidator_succeeds_iff_witness:
  "validate example_env (HashSumValidator True None ''>/dmoper<'' ''md5'')
     (Path True [''repo'', ''repomd.xml'']) = Inr () \<and>
   is_dir example_env (Path True [''repo'']) \<and>
   validate example_env (HashSumValidator True None ''>/dmoper<'' ''md5'') (Path True [''repo'']) =
     Inl (ValidationError (NotRegularFile (Path True [''repo''])))"
proof -
  have dir: "is_dir example_env (Path True [''repo''])"
    by (simp add: example_env_def example_fs_def)
  have digest:
    "exists_path example_env (Path True [''repo'', ''repomd.xml'']) \<and>
     is_file example_env (Path True [''repo'', ''repomd.xml'']) \<and>
     calc_hash example_env (Path True [''repo'', ''repomd.xml'']) ''md5'' = Inr ''>/dmoper<''"
    by (simp add: example_env_def example_fs_def calc_hash_def read_bytes_def)
  from HashSumValidator_succeeds_iff [of example_env True "''>/dmoper<''" "''md5''"
      "Path True [''repo'', ''repomd.xml'']"] digest
    HashSumValidator_succeeds_iff [of example_env True "''>/dmoper<''" "''md5''"
      "Path True [''repo'']"] dir
  show ?thesis by blast
qed

subsection \<open>Composite validators\<close>

lemma validate_items_all_pass:
  "(\<forall>(sub_path, v) \<in> set items. validate env v (path_join root sub_path) = Inr ()) \<Longrightarrow>
     validate_items env root items = Inr ()"
  by (induction items) auto

lemma validate_items_first_failure:
  "(\<forall>(sub_path, v) \<in> set before. validate env v (path_join root sub_path) = Inr ()) \<Longrightarrow>
   validate env failing (path_join root failing_key) = Inl e \<Longrightarrow>
     validate_items env root (before @ (failing_key, failing) # later) = Inl e"
  by (induction before) auto

text \<open>
  C4, as stated for every root, fails for \<^verbatim>\<open>DirValidator\<close>: the checks of the
  root come before the loop. On a root that does not exist, a \<^verbatim>\<open>DirValidator\<close>
  that is not required returns although its first child would raise; on a root that is a
  regular file it raises for the root, not for the child.
\<close>

theorem composite_fail_fast_counterexample:
  "validate example_env (FileValidator True None)
     (path_join (Path True [''missing'']) (Path False [''repomd.xml''])) =
     Inl (ValidationError (ShouldExist (Path True [''missing'', ''repomd.xml'']))) \<and>
   validate example_env
     (DirValidator (Some [(Path False [''repomd.xml''], FileValidator True None)]) False)
     (Path True [''missing'']) = Inr () \<and>
   validate example_env (FileValidator True None)
     (path_join (Path True [''repo'', ''repomd.xml'']) (Path False [''repomd.xml''])) =
     Inl (ValidationError (ShouldExist (Path True [''repo'', ''repomd.xml'', ''repomd.xml'']))) \<and>
   validate example_env
     (DirValidator (Some [(Path False [''repomd.xml''], FileValidator True None)]) False)
     (Path True [''repo'', ''repomd.xml'']) =
     Inl (ValidationError (NotDirectory (Path True [''repo'', ''repomd.xml''])))"
  by (simp add: example_env_def example_fs_def path_join_def)

text \<open>
  C4, amended: a \<^verbatim>\<open>FileSchemeValidator\<close> with a scheme, on every root, and a
  \<^verbatim>\<open>DirValidator\<close> with a files scheme, on every root that is a directory,
  validate the children in the order of the scheme dict, each at the root joined with its
  key. When the children before one pass and that one raises, the composite raises that very
  exception, whatever the later children are; when every child passes, the composite
  passes. On a root that is no directory a \<^verbatim>\<open>DirValidator\<close> decides on the root
  alone, whatever its files scheme: a missing root passes or raises "should exist" by the
  \<^verbatim>\<open>required\<close> flag, any other root raises "is not a directory".
\<close>

theorem composite_fail_fast:
  "((\<forall>(sub_path, v) \<in> set before. validate env v (path_join root sub_path) = Inr ()) \<and>
    validate env failing (path_join root failing_key) = Inl e \<longrightarrow>
      validate env (FileSchemeValidator (Some (before @ (failing_key, failing) # later))) root = Inl e \<and>
      (is_dir env root \<longrightarrow>
         validate env (DirValidator (Some (before @ (failing_key, failing) # later)) required) root =
           Inl e)) \<and>
   ((\<forall>(sub_path, v) \<in> set items. validate env v (path_join root sub_path) = Inr ()) \<longrightarrow>
      validate env (FileSchemeValidator (Some items)) root = Inr () \<and>
      (is_dir env root \<longrightarrow> validate env (DirValidator (Some items) required) root = Inr ())) \<and>
   (\<not> is_dir env root \<longrightarrow>
      validate env (DirValidator files_scheme required) root =
        (if exists_path env root then Inl (ValidationError (NotDirectory root))
         else if required then Inl (ValidationError (ShouldExist root))
         else Inr ()))"
proof (intro conjI impI)
  assume h: "(\<forall>(sub_path, v) \<in> set before. validate env v (path_join root sub_path) = Inr ()) \<and>
    validate env failing (path_join root failing_key) = Inl e"
  then have loop: "validate_items env root (before @ (failing_key, failing) # later) = Inl e"
    by (simp add: validate_items_first_failure)
  then show "validate env (FileSchemeValidator (Some (before @ (failing_key, failing) # later))) root = Inl e"
    by simp
  assume "is_dir env root"
  with loop show "validate env (DirValidator (Some (before @ (failing_key, failing) # later)) required) root = Inl e"
    by simp
next
  assume h: "\<forall>(sub_path, v) \<in> set items. validate env v (path_join root sub_path) = Inr ()"
  then have loop: "validate_items env root items = Inr ()"
    by (rule validate_items_all_pass)
  then show "validate env (FileSchemeValidator (Some items)) root = Inr ()"
    by simp
  assume "is_dir env root"
  with loop show "validate env (DirValidator (Some items) required) root = Inr ()"
    by simp
next
  assume "\<not> is_dir env root"
  then show "validate env (DirValidator files_scheme required) root =
        (if exists_path env root then Inl (ValidationError (NotDirectory root))
         else if required then Inl (ValidationError (ShouldExist root))
         else Inr ())"
    by simp
qed

theorem composite_fail_fast_witness:
  "validate example_env (FileValidator True None) (Path True [''repo'', ''repomd.xml'']) = Inr () \<and>
   validate example_env (FileValidator True None) (Path True [''repo'', ''absent'']) =
     Inl (ValidationError (ShouldExist (Path True [''repo'', ''absent'']))) \<and>
   validate example_env (DirValidator None True) (Path True [''repo'', ''RELEASE.INFO'']) =
     Inl (ValidationError (NotDirectory (Path True [''repo'', ''RELEASE.INFO'']))) \<and>
   is_dir example_env (Path True [''repo'']) \<and>
   validate example_env
     (FileSchemeValidator (Some
        [(Path False [''repomd.xml''], FileValidator True None),
         (Path False [''absent''], FileValidator True None),
         (Path False [''RELEASE.INFO''], DirValidator None True)]))
     (Path True [''repo'']) =
     Inl (ValidationError (ShouldExist (Path True [''repo'', ''absent'']))) \<and>
   validate example_env
     (DirValidator (Some
        [(Path False [''repomd.xml''], FileValidator True None),
         (Path False [''absent''], FileValidator True None),
         (Path False [''RELEASE.INFO''], DirValidator None True)]) False)
     (Path True [''repo'']) =
     Inl (ValidationError (ShouldExist (Path True [''repo'', ''absent'']))) \<and>
   validate example_env
     (DirValidator (Some [(Path False [''repomd.xml''], FileValidator True None)]) True)
     (Path True [''repo'']) = Inr () \<and>
   \<not> is_dir example_env (Path True [''missing'']) \<and>
   validate example_env
     (DirValidator (Some [(Path False [''repomd.xml''], FileValidator True None)]) True)
     (Path True [''missing'']) = Inl (ValidationError (ShouldExist (Path True [''missing''])))"
proof -
  have children:
    "validate example_env (FileValidator True None) (Path True [''repo'', ''repomd.xml'']) = Inr ()"
    "validate example_env (FileValidator True None) (Path True [''repo'', ''absent'']) =
       Inl (ValidationError (ShouldExist (Path True [''repo'', ''absent''])))"
    "validate example_env (DirValidator None True) (Path True [''repo'', ''RELEASE.INFO'']) =
       Inl (ValidationError (NotDirectory (Path True [''repo'', ''RELEASE.INFO''])))"
    "is_dir example_env (Path True [''repo''])"
    by (simp_all add: example_env_def example_fs_def)
  have missing:
    "\<not> is_dir example_env (Path True [''missing''])"
    "\<not> exists_path example_env (Path True [''missing''])"
    by (simp_all add: example_env_def example_fs_def)
  have joins:
    "path_join (Path True [''repo'']) (Path False [''repomd.xml'']) = Path True [''repo'', ''repomd.xml'']"
    "path_join (Path True [''repo'']) (Path False [''absent'']) = Path True [''repo'', ''absent'']"
    by (simp_all add: path_join_def)
  note first = composite_fail_fast
    [where env = example_env and root = "Path True [''repo'']" and required = False
       and before = "[(Path False [''repomd.xml''], FileValidator True None)]"
       and failing_key = "Path False [''absent'']" and failing = "FileValidator True None"
       and later = "[(Path False [''RELEASE.INFO''], DirValidator None True)]"
       and e = "ValidationError (ShouldExist (Path True [''repo'', ''absent'']))"
       and items = "[]"]
  note every = composite_fail_fast
    [where env = example_env and root = "Path True [''repo'']" and required = True
       and items = "[(Path False [''repomd.xml''], FileValidator True None)]"]
  note no_dir = composite_fail_fast
    [where env = example_env and root = "Path True [''missing'']" and required = True
       and files_scheme = "Some [(Path False [''repomd.xml''], FileValidator True None)]"]
  from no_dir missing have last:
    "validate example_env
       (DirValidator (Some [(Path False [''repomd.xml''], FileValidator True None)]) True)
       (Path True [''missing'']) = Inl (ValidationError (ShouldExist (Path True [''missing''])))"
    by (simp del: validate.simps fs_cases)
  from first every children joins last missing(1) show ?thesis by simp
qed

subsection \<open>The loop over the unexpected keys\<close>

lemma keys_delete: "fst ` set (AList.delete k data) = fst ` set data - {k}"
proof -
  have "set (map fst (AList.delete k data)) = set (map fst data) - {k}"
    by (simp only: delete_keys set_removeAll)
  then show ?thesis by (simp only: set_map)
qed

lemma map_of_key: "k \<in> fst ` set data \<Longrightarrow> \<exists>v. map_of data k = Some v"
proof -
  assume "k \<in> fst ` set data"
  then have "map_of data k \<noteq> None" by (simp only: map_of_eq_None_iff not_not)
  then show ?thesis by blast
qed

lemma pop_step:
  assumes "set (k # ks) \<subseteq> fst ` set data" and "distinct (k # ks)"
  obtains v where "map_of data k = Some v"
    and "set ks \<subseteq> fst ` set (AList.delete k data)" and "distinct ks"
proof -
  from assms(1) have "k \<in> fst ` set data" by simp
  then have "\<exists>v. map_of data k = Some v" by (rule map_of_key)
  then obtain v where v: "map_of data k = Some v" ..
  from assms have "k \<notin> set ks" and "set ks \<subseteq> fst ` set data" by simp_all
  then have "set ks \<subseteq> fst ` set data - {k}" by blast
  then have "set ks \<subseteq> fst ` set (AList.delete k data)" by (simp only: keys_delete)
  moreover from assms(2) have "distinct ks" by simp
  ultimately show thesis using v that by blast
qed

lemma pop_unexpected_no_error:
  "set ks \<subseteq> fst ` set data \<Longrightarrow> distinct ks \<Longrightarrow> fst (pop_unexpected ks unexpected data) = None"
proof (induction ks arbitrary: unexpected data)
  case Nil
  then show ?case by simp
next
  case (Cons k ks)
  from Cons.prems obtain v where v: "map_of data k = Some v"
    and sub: "set ks \<subseteq> fst ` set (AList.delete k data)" and dist: "distinct ks"
    by (rule pop_step)
  from Cons.IH [OF sub dist] v show ?case by simp
qed

lemma pop_unexpected_data:
  "set ks \<subseteq> fst ` set data \<Longrightarrow> distinct ks \<Longrightarrow>
     snd (snd (pop_unexpected ks unexpected data)) = filter (\<lambda>(k, v). k \<notin> set ks) data"
proof (induction ks arbitrary: unexpected data)
  case Nil
  then show ?case by simp
next
  case (Cons k ks)
  from Cons.prems obtain v where v: "map_of data k = Some v"
    and sub: "set ks \<subseteq> fst ` set (AList.delete k data)" and dist: "distinct ks"
    by (rule pop_step)
  from Cons.IH [OF sub dist] v
  have "snd (snd (pop_unexpected (k # ks) unexpected data)) =
      filter (\<lambda>(k, v). k \<notin> set ks) (AList.delete k data)"
    by simp
  also have "\<dots> = filter (\<lambda>(k', v). k' \<notin> set (k # ks)) data"
    unfolding AList.delete_eq filter_filter by (rule filter_cong) auto
  finally show ?case .
qed

lemma pop_unexpected_collected:
  "set ks \<subseteq> fst ` set data \<Longrightarrow> distinct ks \<Longrightarrow>
     map_of (fst (snd (pop_unexpected ks unexpected data))) k' =
       (if k' \<in> set ks then map_of data k' else map_of unexpected k')"
proof (induction ks arbitrary: unexpected data)
  case Nil
  then show ?case by simp
next
  case (Cons k ks)
  from Cons.prems obtain v where v: "map_of data k = Some v"
    and sub: "set ks \<subseteq> fst ` set (AList.delete k data)" and dist: "distinct ks"
    by (rule pop_step)
  from Cons.prems have notin: "k \<notin> set ks" by simp
  have "map_of (fst (snd (pop_unexpected (k # ks) unexpected data))) k' =
      (if k' \<in> set ks then map_of (AList.delete k data) k'
       else map_of (AList.update k v unexpected) k')"
    using Cons.IH [OF sub dist] v by simp
  also have "\<dots> = (if k' \<in> set (k # ks) then map_of data k' else map_of unexpected k')"
    using notin v by (auto simp: update_conv' delete_conv')
  finally show ?case .
qed


lemma unexpected_keys_subset: "set (unexpected_keys cls data) \<subseteq> fst ` set data"
  by (auto simp: unexpected_keys_def)

lemma unexpected_keys_distinct: "distinct (unexpected_keys cls data)"
  by (simp add: unexpected_keys_def)

lemma unexpected_keys_iff:
  "k \<in> set (unexpected_keys cls data) \<longleftrightarrow> k \<in> fst ` set data \<and> k \<notin> set (field_keys cls)"
  by (auto simp: unexpected_keys_def)

lemma declared_filter:
  "filter (\<lambda>(k, v). k \<notin> set (unexpected_keys cls data)) data =
   filter (\<lambda>(k, v). k \<in> set (field_keys cls)) data"
proof (rule filter_cong)
  fix x assume "x \<in> set data"
  then have "fst x \<in> fst ` set data" by (rule imageI)
  then show "(case x of (k, v) \<Rightarrow> k \<notin> set (unexpected_keys cls data)) =
             (case x of (k, v) \<Rightarrow> k \<in> set (field_keys cls))"
    by (cases x) (simp add: unexpected_keys_iff)
qed simp

lemma pop_unexpected_from_args:
  "\<exists>unexpected. pop_unexpected (unexpected_keys cls data) [] data =
      (None, unexpected, filter (\<lambda>(k, v). k \<in> set (field_keys cls)) data) \<and>
      (\<forall>k. map_of unexpected k = (if k \<in> set (field_keys cls) then None else map_of data k))"
proof -
  let ?ks = "unexpected_keys cls data"
  let ?r = "pop_unexpected ?ks [] data"
  note sub = unexpected_keys_subset [of cls data] and dist = unexpected_keys_distinct [of cls data]
  have 1: "fst ?r = None"
    using sub dist by (rule pop_unexpected_no_error)
  have "snd (snd ?r) = filter (\<lambda>(k, v). k \<notin> set ?ks) data"
    using sub dist by (rule pop_unexpected_data)
  then have 2: "snd (snd ?r) = filter (\<lambda>(k, v). k \<in> set (field_keys cls)) data"
    by (simp only: declared_filter)
  have 3: "map_of (fst (snd ?r)) k = (if k \<in> set (field_keys cls) then None else map_of data k)" for k
  proof -
    have "map_of (fst (snd ?r)) k = (if k \<in> set ?ks then map_of data k else map_of [] k)"
      using sub dist by (rule pop_unexpected_collected)
    moreover have "k \<notin> fst ` set data \<Longrightarrow> map_of data k = None"
      by (simp add: map_of_eq_None_iff)
    moreover have "k \<in> set (field_keys cls) \<Longrightarrow> k \<notin> set ?ks"
      by (simp add: unexpected_keys_iff)
    moreover have "k \<notin> set (field_keys cls) \<Longrightarrow> k \<in> fst ` set data \<Longrightarrow> k \<in> set ?ks"
      by (simp add: unexpected_keys_iff)
    ultimately show ?thesis
      by (cases "k \<in> fst ` set data"; cases "k \<in> set (field_keys cls)"; cases "k \<in> set ?ks") simp_all
  qed
  obtain e u d where r: "?r = (e, u, d)"
    by (cases ?r) blast
  from 1 2 3 show ?thesis unfolding r by simp
qed

text \<open>
  C10: \<^verbatim>\<open>from_args\<close> works on the caller's dict. After the call every key that is
  no attribute of the scheme class is gone from it, and the entries of the attributes are
  what they were, in their order; this holds whether or not the construction then succeeds.
\<close>

theorem from_args_pops_unexpected_keys:
  "snd (from_args text_of cls (VDict data)) =
     VDict (filter (\<lambda>(k, v). k \<in> set (field_keys cls)) data)"
proof -
  from pop_unexpected_from_args [of cls data] obtain unexpected where
    "pop_unexpected (unexpected_keys cls data) [] data =
      (None, unexpected, filter (\<lambda>(k, v). k \<in> set (field_keys cls)) data)"
    by blast
  then show ?thesis by (simp add: from_args_def)
qed

subsection \<open>Construction of a scheme instance\<close>

lemma run_validator_error:
  "run_validator check field v = Some e \<Longrightarrow>
     (\<exists>t. e = TypeError (NotInstanceOf field t)) \<or> e = TypeError (ExpectedString field) \<or>
     e = ValueError field"
  by (induction check) (auto split: if_splits pyval.splits)

lemma run_validators_error:
  "run_validators stored = Some e \<Longrightarrow>
     (\<exists>field t. e = TypeError (NotInstanceOf field t)) \<or>
     (\<exists>field. e = TypeError (ExpectedString field)) \<or> (\<exists>field. e = ValueError field)"
proof (induction stored)
  case Nil
  then show ?case by simp
next
  case (Cons p stored)
  obtain a v where p: "p = (a, v)" by (cases p)
  show ?case
  proof (cases "validator a")
    case None
    with Cons p show ?thesis by simp
  next
    case (Some check)
    show ?thesis
    proof (cases "run_validator check (name a) v")
      case None
      with Cons p Some show ?thesis by simp
    next
      case (Some e')
      with Cons.prems p \<open>validator a = Some check\<close> have "e' = e" by simp
      with Some run_validator_error [of check "name a" v e] show ?thesis by blast
    qed
  qed
qed

lemma attrs_init_error:
  "attrs_init text_of bound = Inl e \<Longrightarrow>
     (\<exists>field t. e = TypeError (NotInstanceOf field t)) \<or>
     (\<exists>field. e = TypeError (ExpectedString field)) \<or> (\<exists>field. e = ValueError field)"
  by (auto simp: attrs_init_def Let_def split: option.splits dest: run_validators_error)

lemma find_declared:
  "find (\<lambda>k. k \<notin> set (field_keys cls)) (map fst (filter (\<lambda>(k, v). k \<in> set (field_keys cls)) data)) = None"
  by (auto simp: find_None_iff)

lemma bind_kwargs_declared:
  "bind_kwargs cls (filter (\<lambda>(k, v). k \<in> set (field_keys cls)) data) =
     (case filter (\<lambda>a. lookup_kwarg (filter (\<lambda>(k, v). k \<in> set (field_keys cls)) data) a = None) cls of
        [] \<Rightarrow> Inr (List.map_filter (\<lambda>a. map_option (Pair a)
                 (lookup_kwarg (filter (\<lambda>(k, v). k \<in> set (field_keys cls)) data) a)) cls)
      | missing \<Rightarrow> Inl (TypeError (MissingArguments (map name missing))))"
  unfolding bind_kwargs_def find_declared by simp

lemma construct_declared_error:
  assumes "construct text_of (bind_kwargs cls (filter (\<lambda>(k, v). k \<in> set (field_keys cls)) data)) = Inl e"
  shows "e \<noteq> TypeError (UnexpectedKeyword k) \<and> e \<noteq> KeyError k"
proof (cases "bind_kwargs cls (filter (\<lambda>(k, v). k \<in> set (field_keys cls)) data)")
  case (Inl e')
  with assms have "e' = e" by (simp add: construct_def)
  with Inl show ?thesis
    unfolding bind_kwargs_declared by (auto split: list.splits)
next
  case (Inr b)
  with assms have "attrs_init text_of b = Inl e" by (simp add: construct_def)
  from attrs_init_error [OF this] show ?thesis by auto
qed

lemma missing_required:
  assumes "a \<in> set cls" and "default a = None" and "map_of data (VStr (name a)) = None"
  shows "\<exists>missing. construct text_of (bind_kwargs cls (filter (\<lambda>(k, v). k \<in> set (field_keys cls)) data)) =
           Inl (TypeError (MissingArguments missing)) \<and> name a \<in> set missing"
proof -
  let ?d = "filter (\<lambda>(k, v). k \<in> set (field_keys cls)) data"
  from assms(3) have "VStr (name a) \<notin> fst ` set data" by (simp add: map_of_eq_None_iff)
  then have "VStr (name a) \<notin> fst ` set ?d" by auto
  then have "map_of ?d (VStr (name a)) = None" by (simp add: map_of_eq_None_iff)
  with assms(2) have "lookup_kwarg ?d a = None" by (simp add: lookup_kwarg_def)
  with assms(1) have in_missing: "a \<in> set (filter (\<lambda>a. lookup_kwarg ?d a = None) cls)" by simp
  then obtain m ms where ms: "filter (\<lambda>a. lookup_kwarg ?d a = None) cls = m # ms"
    by (cases "filter (\<lambda>a. lookup_kwarg ?d a = None) cls") auto
  then have "bind_kwargs cls ?d = Inl (TypeError (MissingArguments (map name (m # ms))))"
    unfolding bind_kwargs_declared by simp
  moreover from in_missing ms have "name a \<in> set (map name (m # ms))" by auto
  ultimately show ?thesis by (auto simp: construct_def)
qed


lemma map_of_filter_key:
  "map_of (filter (\<lambda>(k, v). P k) data) k = (if P k then map_of data k else None)"
  by (induction data) auto

lemma lookup_kwarg_declared:
  "a \<in> set cls \<Longrightarrow>
     lookup_kwarg (filter (\<lambda>(k, v). k \<in> set (field_keys cls)) data) a = declared_value data a"
  by (simp add: lookup_kwarg_def declared_value_def map_of_filter_key field_keys_def)

lemma map_filter_all_some:
  "\<forall>a \<in> set xs. f a \<noteq> None \<Longrightarrow>
     map (\<lambda>(a, v). (a, Some v)) (List.map_filter (\<lambda>a. map_option (Pair a) (f a)) xs) =
     map (\<lambda>a. (a, f a)) xs"
proof (induction xs)
  case Nil
  show ?case by (simp add: List.map_filter_simps)
next
  case (Cons x xs)
  then obtain v where "f x = Some v" by auto
  with Cons show ?case by (simp add: List.map_filter_simps)
qed

lemma map_filter_agree:
  "\<forall>a \<in> set xs. f a = g a \<Longrightarrow> List.map_filter (\<lambda>a. map_option (Pair a) (f a)) xs =
     List.map_filter (\<lambda>a. map_option (Pair a) (g a)) xs"
  by (induction xs) (auto simp: List.map_filter_simps split: option.splits)

lemma bind_kwargs_values:
  fixes cls data
  defines "declared \<equiv> filter (\<lambda>(k, v). k \<in> set (field_keys cls)) data"
  shows "(\<forall>a \<in> set cls. declared_value data a \<noteq> None) \<Longrightarrow>
           \<exists>bound. bind_kwargs cls declared = Inr bound \<and>
             map (\<lambda>(a, v). (a, Some v)) bound = map (\<lambda>a. (a, declared_value data a)) cls"
    and "\<not> (\<forall>a \<in> set cls. declared_value data a \<noteq> None) \<Longrightarrow>
           \<exists>missing. bind_kwargs cls declared = Inl (TypeError (MissingArguments missing))"
proof -
  have agree: "\<forall>a \<in> set cls. lookup_kwarg declared a = declared_value data a"
    unfolding declared_def by (simp add: lookup_kwarg_declared)
  have missing: "filter (\<lambda>a. lookup_kwarg declared a = None) cls =
      filter (\<lambda>a. declared_value data a = None) cls"
    using agree by (auto intro: filter_cong)
  have bind: "bind_kwargs cls declared =
      (case filter (\<lambda>a. declared_value data a = None) cls of
         [] \<Rightarrow> Inr (List.map_filter (\<lambda>a. map_option (Pair a) (declared_value data a)) cls)
       | missing \<Rightarrow> Inl (TypeError (MissingArguments (map name missing))))"
    unfolding declared_def bind_kwargs_declared
    unfolding declared_def [symmetric] missing map_filter_agree [OF agree] ..
  {
    assume all: "\<forall>a \<in> set cls. declared_value data a \<noteq> None"
    then have "filter (\<lambda>a. declared_value data a = None) cls = []"
      by (simp add: filter_empty_conv)
    with bind have "bind_kwargs cls declared =
        Inr (List.map_filter (\<lambda>a. map_option (Pair a) (declared_value data a)) cls)"
      by simp
    with map_filter_all_some [OF all]
    show "\<exists>bound. bind_kwargs cls declared = Inr bound \<and>
             map (\<lambda>(a, v). (a, Some v)) bound = map (\<lambda>a. (a, declared_value data a)) cls"
      by blast
  }
  {
    assume "\<not> (\<forall>a \<in> set cls. declared_value data a \<noteq> None)"
    then have "filter (\<lambda>a. declared_value data a = None) cls \<noteq> []"
      by (simp add: filter_empty_conv)
    then obtain m ms where "filter (\<lambda>a. declared_value data a = None) cls = m # ms"
      by (cases "filter (\<lambda>a. declared_value data a = None) cls") auto
    with bind show "\<exists>missing. bind_kwargs cls declared = Inl (TypeError (MissingArguments missing))"
      by simp
  }
qed

lemma run_validators_pass:
  "run_validators stored = None \<longleftrightarrow>
     (\<forall>(a, v) \<in> set stored. \<forall>check. validator a = Some check \<longrightarrow>
        run_validator check (name a) v = None)"
  by (induction stored) (auto split: option.splits)

lemma attrs_init_result:
  "attrs_init text_of bound =
     (case run_validators (map (\<lambda>(a, v). (a, convert text_of (converter a) v)) bound) of
        Some e \<Rightarrow> Inl e
      | None \<Rightarrow> Inr (map (\<lambda>(a, v). (name a, convert text_of (converter a) v)) bound))"
  by (simp add: attrs_init_def Let_def split_def comp_def split: option.splits)


lemma bound_members:
  assumes "map (\<lambda>(a, v). (a, Some v)) bound = map (\<lambda>a. (a, f a)) cls"
  shows "(a, v) \<in> set bound \<longleftrightarrow> a \<in> set cls \<and> f a = Some v"
proof -
  have "(a, v) \<in> set bound \<longleftrightarrow> (a, Some v) \<in> set (map (\<lambda>(a, v). (a, Some v)) bound)"
    by force
  also have "\<dots> \<longleftrightarrow> (a, Some v) \<in> set (map (\<lambda>a. (a, f a)) cls)"
    by (simp only: assms)
  also have "\<dots> \<longleftrightarrow> a \<in> set cls \<and> f a = Some v"
    by (auto simp: image_iff)
  finally show ?thesis .
qed

lemma bound_attrs:
  assumes "map (\<lambda>(a, v). (a, Some v)) bound = map (\<lambda>a. (a, f a)) cls"
  shows "map (\<lambda>(n, v). (n, Some v)) (map (\<lambda>(a, v). (name a, g a v)) bound) =
         map (\<lambda>a. (name a, map_option (g a) (f a))) cls"
proof -
  have "map (\<lambda>(n, v). (n, Some v)) (map (\<lambda>(a, v). (name a, g a v)) bound) =
      map (\<lambda>(a, ov). (name a, map_option (g a) ov)) (map (\<lambda>(a, v). (a, Some v)) bound)"
    by (simp add: split_def comp_def)
  also have "\<dots> = map (\<lambda>(a, ov). (name a, map_option (g a) ov)) (map (\<lambda>a. (a, f a)) cls)"
    by (simp only: assms)
  also have "\<dots> = map (\<lambda>a. (name a, map_option (g a) (f a))) cls"
    by (simp add: comp_def)
  finally show ?thesis .
qed

lemma construct_kwargs:
  fixes cls data text_of
  defines "declared \<equiv> filter (\<lambda>(k, v). k \<in> set (field_keys cls)) data"
  defines "accepted \<equiv> (\<forall>a \<in> set cls. \<exists>v. declared_value data a = Some v \<and>
      (\<forall>check. validator a = Some check \<longrightarrow>
         run_validator check (name a) (convert text_of (converter a) v) = None))"
  shows "construct text_of (bind_kwargs cls declared) = Inr stored \<Longrightarrow>
           map (\<lambda>(n, v). (n, Some v)) stored =
           map (\<lambda>a. (name a, map_option (convert text_of (converter a)) (declared_value data a))) cls"
    and "(\<exists>stored. construct text_of (bind_kwargs cls declared) = Inr stored) \<longleftrightarrow> accepted"
proof -
  let ?all = "\<forall>a \<in> set cls. declared_value data a \<noteq> None"
  have no_value: "\<not> ?all \<Longrightarrow> \<exists>e. construct text_of (bind_kwargs cls declared) = Inl e"
    using bind_kwargs_values(2) [of cls data] unfolding declared_def
    by (auto simp: construct_def)
  have with_values: "\<exists>bound. construct text_of (bind_kwargs cls declared) = attrs_init text_of bound \<and>
      map (\<lambda>(a, v). (a, Some v)) bound = map (\<lambda>a. (a, declared_value data a)) cls" if ?all
    using bind_kwargs_values(1) [OF that] unfolding declared_def
    by (auto simp: construct_def)
  {
    assume ok: "construct text_of (bind_kwargs cls declared) = Inr stored"
    have ?all
    proof (rule ccontr)
      assume "\<not> ?all"
      from no_value [OF this] ok show False by auto
    qed
    from with_values [OF this] obtain bound where
      init: "construct text_of (bind_kwargs cls declared) = attrs_init text_of bound" and
      bound: "map (\<lambda>(a, v). (a, Some v)) bound = map (\<lambda>a. (a, declared_value data a)) cls"
      by blast
    from ok init have "stored = map (\<lambda>(a, v). (name a, convert text_of (converter a) v)) bound"
      by (simp add: attrs_init_result split: option.splits)
    with bound_attrs [OF bound, of "\<lambda>a. convert text_of (converter a)"]
    show "map (\<lambda>(n, v). (n, Some v)) stored =
           map (\<lambda>a. (name a, map_option (convert text_of (converter a)) (declared_value data a))) cls"
      by simp
  }
  show "(\<exists>stored. construct text_of (bind_kwargs cls declared) = Inr stored) \<longleftrightarrow> accepted"
  proof (cases ?all)
    case False
    from no_value [OF False] have "\<not> (\<exists>stored. construct text_of (bind_kwargs cls declared) = Inr stored)"
      by auto
    moreover from False obtain a where "a \<in> set cls" and "declared_value data a = None"
      by blast
    then have "\<not> accepted"
      unfolding accepted_def by force
    ultimately show ?thesis by blast
  next
    case True
    from with_values [OF True] obtain bound where
      init: "construct text_of (bind_kwargs cls declared) = attrs_init text_of bound" and
      bound: "map (\<lambda>(a, v). (a, Some v)) bound = map (\<lambda>a. (a, declared_value data a)) cls"
      by blast
    have "(\<exists>stored. attrs_init text_of bound = Inr stored) \<longleftrightarrow>
        run_validators (map (\<lambda>(a, v). (a, convert text_of (converter a) v)) bound) = None"
      by (simp add: attrs_init_result split: option.splits)
    also have "\<dots> \<longleftrightarrow> (\<forall>(a, v) \<in> set bound. \<forall>check. validator a = Some check \<longrightarrow>
        run_validator check (name a) (convert text_of (converter a) v) = None)"
      unfolding run_validators_pass by (auto simp: image_iff)
    also have "\<dots> \<longleftrightarrow> (\<forall>a v. a \<in> set cls \<and> declared_value data a = Some v \<longrightarrow>
        (\<forall>check. validator a = Some check \<longrightarrow>
         run_validator check (name a) (convert text_of (converter a) v) = None))"
      by (simp add: Ball_def bound_members [OF bound])
    also have "\<dots> \<longleftrightarrow> accepted"
      unfolding accepted_def using True by (metis option.exhaust option.inject)
    finally show ?thesis unfolding init .
  qed
qed

text \<open>
  C5: on a dict, \<^verbatim>\<open>from_args\<close> builds the instance from the entries whose key is an
  attribute of the scheme class. The returned instance holds, in declaration order, every
  attribute with the converted value the dict declares for it, and its unexpected attributes
  are, by key, exactly the entries whose key is no attribute. The call succeeds exactly when
  every attribute has a declared value that passes its validator, so an entry that is no
  attribute is never the reason of a failure. When a mandatory attribute has no entry, the
  construction fails and the exception names the attribute. A value that is neither a dict
  nor a list raises the \<^verbatim>\<open>ValidationError\<close> "Unexpected top-level content type".
\<close>

theorem from_args_mapping:
  "(fst (from_args text_of cls (VDict data)) = Inr obj \<longrightarrow>
      map (\<lambda>(n, v). (n, Some v)) (attrs obj) =
        map (\<lambda>a. (name a, map_option (convert text_of (converter a)) (declared_value data a))) cls \<and>
      (\<forall>k. map_of (unexpected_attrs obj) k =
         (if k \<in> set (field_keys cls) then None else map_of data k))) \<and>
   ((\<exists>obj. fst (from_args text_of cls (VDict data)) = Inr obj) \<longleftrightarrow>
      (\<forall>a \<in> set cls. \<exists>v. declared_value data a = Some v \<and>
         (\<forall>check. validator a = Some check \<longrightarrow>
            run_validator check (name a) (convert text_of (converter a) v) = None))) \<and>
   (\<forall>k. fst (from_args text_of cls (VDict data)) \<noteq> Inl (TypeError (UnexpectedKeyword k)) \<and>
        fst (from_args text_of cls (VDict data)) \<noteq> Inl (KeyError k)) \<and>
   (a \<in> set cls \<and> default a = None \<and> map_of data (VStr (name a)) = None \<longrightarrow>
      (\<exists>missing. fst (from_args text_of cls (VDict data)) = Inl (TypeError (MissingArguments missing)) \<and>
         name a \<in> set missing)) \<and>
   (type_of other \<noteq> dict_t \<and> type_of other \<noteq> list_t \<longrightarrow>
      from_args text_of cls other = (Inl (ValidationError (UnexpectedTopLevel (type_of other))), other))"
proof -
  let ?declared = "filter (\<lambda>(k, v). k \<in> set (field_keys cls)) data"
  let ?built = "construct text_of (bind_kwargs cls ?declared)"
  from pop_unexpected_from_args [of cls data] obtain unexpected where
    pop: "pop_unexpected (unexpected_keys cls data) [] data = (None, unexpected, ?declared)" and
    collected: "\<forall>k. map_of unexpected k = (if k \<in> set (field_keys cls) then None else map_of data k)"
    by blast
  from pop have result:
    "fst (from_args text_of cls (VDict data)) = new_instance unexpected ?built"
    by (simp add: from_args_def)
  have instance_parts: "\<exists>stored. ?built = Inr stored \<and> attrs obj' = stored \<and>
      unexpected_attrs obj' = unexpected"
    if "fst (from_args text_of cls (VDict data)) = Inr obj'" for obj'
    using that unfolding result by (cases ?built) (auto simp: new_instance_def)
  have built: "\<exists>obj'. fst (from_args text_of cls (VDict data)) = Inr obj'"
    if "?built = Inr stored" for stored
    using that unfolding result by (simp add: new_instance_def)
  have stored_instance:
    "map (\<lambda>(n, v). (n, Some v)) (attrs obj) =
        map (\<lambda>a. (name a, map_option (convert text_of (converter a)) (declared_value data a))) cls \<and>
      (\<forall>k. map_of (unexpected_attrs obj) k =
         (if k \<in> set (field_keys cls) then None else map_of data k))"
    if "fst (from_args text_of cls (VDict data)) = Inr obj"
  proof -
    from instance_parts [OF that] obtain stored where
      "?built = Inr stored" "attrs obj = stored" "unexpected_attrs obj = unexpected"
      by blast
    with construct_kwargs(1) [of text_of cls data stored] collected show ?thesis by simp
  qed
  have succeeds: "(\<exists>obj. fst (from_args text_of cls (VDict data)) = Inr obj) \<longleftrightarrow>
      (\<forall>a \<in> set cls. \<exists>v. declared_value data a = Some v \<and>
         (\<forall>check. validator a = Some check \<longrightarrow>
            run_validator check (name a) (convert text_of (converter a) v) = None))"
    unfolding construct_kwargs(2) [of text_of cls data, symmetric]
    using instance_parts built by blast
  have no_unexpected: "fst (from_args text_of cls (VDict data)) \<noteq> Inl (TypeError (UnexpectedKeyword k)) \<and>
      fst (from_args text_of cls (VDict data)) \<noteq> Inl (KeyError k)" for k
  proof (cases ?built)
    case (Inl e)
    from construct_declared_error [OF this, of k] Inl show ?thesis
      unfolding result by (simp add: new_instance_def)
  next
    case (Inr stored)
    then show ?thesis unfolding result by (simp add: new_instance_def)
  qed
  have missing: "\<exists>missing. fst (from_args text_of cls (VDict data)) =
      Inl (TypeError (MissingArguments missing)) \<and> name a \<in> set missing"
    if "a \<in> set cls \<and> default a = None \<and> map_of data (VStr (name a)) = None"
  proof -
    from that missing_required [of a cls data text_of] obtain missing where
      "?built = Inl (TypeError (MissingArguments missing))" "name a \<in> set missing"
      by blast
    then show ?thesis unfolding result by (auto simp: new_instance_def)
  qed
  have shape: "from_args text_of cls other =
      (Inl (ValidationError (UnexpectedTopLevel (type_of other))), other)"
    if "type_of other \<noteq> dict_t \<and> type_of other \<noteq> list_t"
    using that by (cases other) (simp_all add: from_args_def)
  from stored_instance succeeds no_unexpected missing shape show ?thesis by blast
qed

theorem from_args_mapping_witness:
  "(\<exists>obj. fst (from_args (\<lambda>v. []) ReleaseInfoContentScheme
        (VDict ((VStr ''EXTRA'', VInt 1) # release_info ''2.0.1''))) = Inr obj \<and>
      attrs obj =
        [(''NAME'', VStr ''x''), (''VERSION'', VStr ''2.0.1''), (''BUILD'', VStr ''15''),
         (''OS'', VStr ''linux''), (''COMPONENTS'', VList [VStr ''a'', VStr ''b'']),
         (''RELEASE'', VNone)] \<and>
      map_of (unexpected_attrs obj) (VStr ''EXTRA'') = Some (VInt 1) \<and>
      map_of (unexpected_attrs obj) (VStr ''NAME'') = None) \<and>
   (\<exists>missing. fst (from_args (\<lambda>v. []) ReleaseInfoContentScheme (VDict [(VStr ''NAME'', VStr ''x'')])) =
      Inl (TypeError (MissingArguments missing)) \<and> ''VERSION'' \<in> set missing) \<and>
   from_args (\<lambda>v. []) ReleaseInfoContentScheme (VInt 3) =
     (Inl (ValidationError (UnexpectedTopLevel int_t)), VInt 3)"
proof -
  let ?data = "(VStr ''EXTRA'', VInt 1) # release_info ''2.0.1''"
  let ?stored = "[(''NAME'', VStr ''x''), (''VERSION'', VStr ''2.0.1''), (''BUILD'', VStr ''15''),
         (''OS'', VStr ''linux''), (''COMPONENTS'', VList [VStr ''a'', VStr ''b'']),
         (''RELEASE'', VNone)]"
  note inst = from_args_mapping [where text_of = "\<lambda>v. []" and cls = ReleaseInfoContentScheme]
  have accepted: "\<forall>a \<in> set ReleaseInfoContentScheme. \<exists>v. declared_value ?data a = Some v \<and>
         (\<forall>check. validator a = Some check \<longrightarrow>
            run_validator check (name a) (convert (\<lambda>v. []) (converter a) v) = None)"
    by (simp add: ReleaseInfoContentScheme_def declared_value_def release_info_def convert_def
        fullmatch_def VERSION_RE_def BUILD_RE_def in_range_def isinstance_def)
  with inst [of ?data] obtain obj where
    obj: "fst (from_args (\<lambda>v. []) ReleaseInfoContentScheme (VDict ?data)) = Inr obj"
    by blast
  with inst [of ?data obj] have
    stored: "map (\<lambda>(n, v). (n, Some v)) (attrs obj) =
        map (\<lambda>a. (name a, map_option (convert (\<lambda>v. []) (converter a)) (declared_value ?data a)))
          ReleaseInfoContentScheme" and
    unexpected: "\<forall>k. map_of (unexpected_attrs obj) k =
         (if k \<in> set (field_keys ReleaseInfoContentScheme) then None else map_of ?data k)"
    by blast+
  have "map (\<lambda>a. (name a, map_option (convert (\<lambda>v. []) (converter a)) (declared_value ?data a)))
          ReleaseInfoContentScheme = map (\<lambda>(n, v). (n, Some v)) ?stored"
    by (simp add: ReleaseInfoContentScheme_def declared_value_def release_info_def convert_def)
  with stored have "map (\<lambda>(n, v). (n, Some v)) (attrs obj) = map (\<lambda>(n, v). (n, Some v)) ?stored"
    by (simp only:)
  moreover have "inj (\<lambda>(n :: string, v :: pyval). (n, Some v))"
    by (auto simp: inj_on_def)
  ultimately have attrs: "attrs obj = ?stored"
    by (simp only: inj_map_eq_map)
  from unexpected have extra: "map_of (unexpected_attrs obj) (VStr ''EXTRA'') = Some (VInt 1)"
    and declared: "map_of (unexpected_attrs obj) (VStr ''NAME'') = None"
    by (simp_all add: field_keys_def ReleaseInfoContentScheme_def)
  have hyp: "VERSION_attrib \<in> set ReleaseInfoContentScheme \<and> default VERSION_attrib = None \<and>
      map_of [(VStr ''NAME'', VStr ''x'')] (VStr (name VERSION_attrib)) = None"
    by (simp add: VERSION_attrib_def ReleaseInfoContentScheme_def)
  from inst [of "[(VStr ''NAME'', VStr ''x'')]" _ VERSION_attrib] hyp
  have second: "\<exists>missing. fst (from_args (\<lambda>v. []) ReleaseInfoContentScheme (VDict [(VStr ''NAME'', VStr ''x'')])) =
      Inl (TypeError (MissingArguments missing)) \<and> ''VERSION'' \<in> set missing"
    by (simp add: VERSION_attrib_def)
  from inst [of _ _ _ "VInt 3"] have third: "from_args (\<lambda>v. []) ReleaseInfoContentScheme (VInt 3) =
     (Inl (ValidationError (UnexpectedTopLevel int_t)), VInt 3)"
    by simp
  from obj attrs extra declared second third show ?thesis by blast
qed

subsection \<open>The formats of VERSION and BUILD\<close>

lemma digit_range: "in_range CHR ''0'' CHR ''9'' c \<longleftrightarrow> is_digit c"
  by (cases c) (auto simp: in_range_def is_digit_def)

lemma plus_range:
  "matches_from (PlusRange lo hi # items) at_start s \<longleftrightarrow>
     (\<exists>run rest. run \<noteq> [] \<and> list_all (in_range lo hi) run \<and> s = run @ rest \<and>
        matches_from items False rest)"
proof (induction s arbitrary: at_start)
  case Nil
  then show ?case by simp
next
  case (Cons x xs)
  show ?case
  proof
    assume "matches_from (PlusRange lo hi # items) at_start (x # xs)"
    then have x: "in_range lo hi x" and
      alt: "matches_from (PlusRange lo hi # items) False xs \<or> matches_from items False xs"
      by simp_all
    from alt show "\<exists>run rest. run \<noteq> [] \<and> list_all (in_range lo hi) run \<and> x # xs = run @ rest \<and>
        matches_from items False rest"
    proof
      assume "matches_from (PlusRange lo hi # items) False xs"
      with Cons.IH [of False] obtain run rest where
        "run \<noteq> []" "list_all (in_range lo hi) run" "xs = run @ rest" "matches_from items False rest"
        by blast
      with x have "x # run \<noteq> [] \<and> list_all (in_range lo hi) (x # run) \<and> x # xs = (x # run) @ rest \<and>
        matches_from items False rest" by simp
      then show ?thesis by blast
    next
      assume "matches_from items False xs"
      with x have "[x] \<noteq> [] \<and> list_all (in_range lo hi) [x] \<and> x # xs = [x] @ xs \<and>
        matches_from items False xs" by simp
      then show ?thesis by blast
    qed
  next
    assume "\<exists>run rest. run \<noteq> [] \<and> list_all (in_range lo hi) run \<and> x # xs = run @ rest \<and>
        matches_from items False rest"
    then obtain run rest where run: "run \<noteq> []" "list_all (in_range lo hi) run"
      "x # xs = run @ rest" "matches_from items False rest"
      by blast
    then obtain run' where run': "run = x # run'" "xs = run' @ rest"
      by (cases run) auto
    show "matches_from (PlusRange lo hi # items) at_start (x # xs)"
    proof (cases "run' = []")
      case True
      with run run' show ?thesis by simp
    next
      case False
      with run run' have "matches_from (PlusRange lo hi # items) False xs"
        using Cons.IH [of False] by auto
      with run run' show ?thesis by simp
    qed
  qed
qed


lemma digit_run: "run \<noteq> [] \<and> list_all (in_range CHR ''0'' CHR ''9'') run \<longleftrightarrow> digits_only run"
  by (simp add: digits_only_def digit_range [abs_def] is_digit_def [abs_def] list_all_iff)

lemma end_of_string: "matches_from [Eol] at_start rest \<longleftrightarrow> rest = []"
  by auto

lemma literal:
  "matches_from (Lit c # items) at_start s \<longleftrightarrow> (\<exists>rest. s = c # rest \<and> matches_from items False rest)"
  by (cases s) auto

lemma plus_then_end:
  "matches_from [PlusRange CHR ''0'' CHR ''9'', Eol] at_start s \<longleftrightarrow> digits_only s"
proof -
  have "matches_from [PlusRange CHR ''0'' CHR ''9'', Eol] at_start s \<longleftrightarrow>
      (\<exists>run rest. (run \<noteq> [] \<and> list_all (in_range CHR ''0'' CHR ''9'') run) \<and> s = run @ rest \<and> rest = [])"
    by (simp only: plus_range end_of_string conj_assoc)
  also have "\<dots> \<longleftrightarrow> digits_only s"
    unfolding digit_run by simp
  finally show ?thesis .
qed

lemma plus_then_literal:
  "matches_from (PlusRange CHR ''0'' CHR ''9'' # Lit c # items) at_start s \<longleftrightarrow>
     (\<exists>run rest. digits_only run \<and> s = run @ c # rest \<and> matches_from items False rest)"
proof -
  have "matches_from (PlusRange CHR ''0'' CHR ''9'' # Lit c # items) at_start s \<longleftrightarrow>
      (\<exists>run r. (run \<noteq> [] \<and> list_all (in_range CHR ''0'' CHR ''9'') run) \<and> s = run @ r \<and>
         (\<exists>rest. r = c # rest \<and> matches_from items False rest))"
    by (simp only: plus_range literal conj_assoc)
  also have "\<dots> \<longleftrightarrow>
      (\<exists>run rest. digits_only run \<and> s = run @ c # rest \<and> matches_from items False rest)"
    unfolding digit_run by blast
  finally show ?thesis .
qed

lemma fullmatch_BUILD_RE: "fullmatch BUILD_RE s \<longleftrightarrow> digits_only s"
  by (simp only: fullmatch_def BUILD_RE_def matches_from.simps(2) plus_then_end simp_thms)

lemma fullmatch_VERSION_RE:
  "fullmatch VERSION_RE s \<longleftrightarrow>
     (\<exists>a b c. digits_only a \<and> digits_only b \<and> digits_only c \<and> s = a @ CHR ''.'' # b @ CHR ''.'' # c)"
proof -
  have "fullmatch VERSION_RE s \<longleftrightarrow>
      (\<exists>a r. digits_only a \<and> s = a @ CHR ''.'' # r \<and>
        (\<exists>b c. digits_only b \<and> r = b @ CHR ''.'' # c \<and> digits_only c))"
    by (simp only: fullmatch_def VERSION_RE_def matches_from.simps(2) plus_then_literal
        plus_then_end simp_thms)
  also have "\<dots> \<longleftrightarrow>
      (\<exists>a b c. digits_only a \<and> digits_only b \<and> digits_only c \<and> s = a @ CHR ''.'' # b @ CHR ''.'' # c)"
    by blast
  finally show ?thesis .
qed


lemma split_dots_nonempty: "split_dots s \<noteq> []"
  by (induction s) (simp_all split: list.splits)

lemma split_dots_Cons:
  "x \<noteq> CHR ''.'' \<Longrightarrow> split_dots (x # xs) = (x # hd (split_dots xs)) # tl (split_dots xs)"
  using split_dots_nonempty [of xs] by (cases "split_dots xs") simp_all

lemma split_dots_dot: "split_dots (CHR ''.'' # xs) = [] # split_dots xs"
  by simp


lemma split_dots_no_dot: "CHR ''.'' \<notin> set w \<Longrightarrow> split_dots w = [w]"
proof (induction w)
  case Nil
  show ?case by simp
next
  case (Cons x w)
  from Cons.prems have "x \<noteq> CHR ''.''" and "CHR ''.'' \<notin> set w"
    by (metis list.set_intros(1), metis list.set_intros(2))
  with Cons.IH have x: "x \<noteq> CHR ''.''" and IH: "split_dots w = [w]" by blast+
  show ?case unfolding split_dots_Cons [OF x] IH by simp
qed

lemma split_dots_append:
  "CHR ''.'' \<notin> set w \<Longrightarrow> split_dots (w @ CHR ''.'' # rest) = w # split_dots rest"
proof (induction w)
  case Nil
  show ?case by (simp only: append_Nil split_dots_dot)
next
  case (Cons x w)
  from Cons.prems have "x \<noteq> CHR ''.''" and "CHR ''.'' \<notin> set w"
    by (metis list.set_intros(1), metis list.set_intros(2))
  with Cons.IH have x: "x \<noteq> CHR ''.''" and
    IH: "split_dots (w @ CHR ''.'' # rest) = w # split_dots rest"
    by blast+
  show ?case unfolding append_Cons split_dots_Cons [OF x] IH by simp
qed

lemma split_dots_head:
  "split_dots s = w # ws \<Longrightarrow>
     CHR ''.'' \<notin> set w \<and>
     (if ws = [] then s = w else \<exists>rest. s = w @ CHR ''.'' # rest \<and> split_dots rest = ws)"
proof (induction s arbitrary: w ws)
  case Nil
  then show ?case by simp
next
  case (Cons x xs)
  show ?case
  proof (cases "x = CHR ''.''")
    case True
    with Cons.prems have "[] # split_dots xs = w # ws" by (simp only: split_dots_dot)
    then have "w = []" and "ws = split_dots xs" by simp_all
    with True split_dots_nonempty [of xs] show ?thesis by simp
  next
    case False
    from Cons.prems have "(x # hd (split_dots xs)) # tl (split_dots xs) = w # ws"
      by (simp only: split_dots_Cons [OF False])
    then have w: "w = x # hd (split_dots xs)" and ws: "ws = tl (split_dots xs)" by simp_all
    from split_dots_nonempty [of xs] have "split_dots xs = hd (split_dots xs) # ws"
      unfolding ws by simp
    from Cons.IH [OF this] have
      no_dot: "CHR ''.'' \<notin> set (hd (split_dots xs))" and
      rest: "if ws = [] then xs = hd (split_dots xs)
             else \<exists>rest. xs = hd (split_dots xs) @ CHR ''.'' # rest \<and> split_dots rest = ws"
      by blast+
    from no_dot False have 1: "CHR ''.'' \<notin> set w" unfolding w by (metis set_ConsD)
    show ?thesis
    proof (cases "ws = []")
      case True
      with rest have "xs = hd (split_dots xs)" by simp
      then have "x # xs = w" unfolding w by simp
      with 1 True show ?thesis by simp
    next
      case False
      with rest obtain r where "xs = hd (split_dots xs) @ CHR ''.'' # r" and "split_dots r = ws"
        by auto
      then have "x # xs = w @ CHR ''.'' # r \<and> split_dots r = ws" unfolding w by simp
      with 1 False show ?thesis by auto
    qed
  qed
qed


lemma digits_no_dot: "digits_only w \<Longrightarrow> CHR ''.'' \<notin> set w"
proof -
  assume "digits_only w"
  then have "\<forall>c \<in> set w. is_digit c" by (simp add: digits_only_def list_all_iff)
  moreover have "\<not> is_digit CHR ''.''" by (simp add: is_digit_def)
  ultimately show ?thesis by blast
qed

lemma three_split:
  "three_dotted_numbers s \<Longrightarrow> \<exists>a b c. split_dots s = [a, b, c] \<and> digits_only a \<and> digits_only b \<and> digits_only c"
  unfolding three_dotted_numbers_def by (simp split: list.splits)


lemma three_dotted_numbers_iff:
  "three_dotted_numbers s \<longleftrightarrow>
     (\<exists>a b c. digits_only a \<and> digits_only b \<and> digits_only c \<and> s = a @ CHR ''.'' # b @ CHR ''.'' # c)"
proof
  assume "three_dotted_numbers s"
  then obtain a b c where split: "split_dots s = [a, b, c]" and
    digits: "digits_only a" "digits_only b" "digits_only c"
    using three_split by blast
  from split_dots_head [OF split] have "\<exists>rest. s = a @ CHR ''.'' # rest \<and> split_dots rest = [b, c]"
    by simp
  then obtain r1 where r1: "s = a @ CHR ''.'' # r1" "split_dots r1 = [b, c]"
    by blast
  from split_dots_head [OF r1(2)] have "\<exists>rest. r1 = b @ CHR ''.'' # rest \<and> split_dots rest = [c]"
    by simp
  then obtain r2 where r2: "r1 = b @ CHR ''.'' # r2" "split_dots r2 = [c]"
    by blast
  from split_dots_head [OF r2(2)] have "r2 = c" by simp
  with r1 r2 have "s = a @ CHR ''.'' # b @ CHR ''.'' # c" by simp
  with digits show "\<exists>a b c. digits_only a \<and> digits_only b \<and> digits_only c \<and>
      s = a @ CHR ''.'' # b @ CHR ''.'' # c"
    by blast
next
  assume "\<exists>a b c. digits_only a \<and> digits_only b \<and> digits_only c \<and> s = a @ CHR ''.'' # b @ CHR ''.'' # c"
  then obtain a b c where digits: "digits_only a" "digits_only b" "digits_only c" and
    s: "s = a @ CHR ''.'' # b @ CHR ''.'' # c"
    by blast
  have "split_dots s = [a, b, c]"
    unfolding s split_dots_append [OF digits_no_dot [OF digits(1)]]
      split_dots_append [OF digits_no_dot [OF digits(2)]]
      split_dots_no_dot [OF digits_no_dot [OF digits(3)]] ..
  with digits show "three_dotted_numbers s"
    by (simp add: three_dotted_numbers_def)
qed


lemma fullmatch_VERSION_RE_iff: "fullmatch VERSION_RE s \<longleftrightarrow> three_dotted_numbers s"
  by (simp only: fullmatch_VERSION_RE three_dotted_numbers_iff)


lemma from_args_release_info:
  "fst (from_args text_of ReleaseInfoContentScheme
     (VDict [(VStr ''NAME'', VStr n), (VStr ''VERSION'', version), (VStr ''BUILD'', build),
             (VStr ''OS'', VStr os), (VStr ''COMPONENTS'', VList components)])) =
   (if \<not> fullmatch VERSION_RE (py_str text_of version) then Inl (ValueError ''VERSION'')
    else if \<not> fullmatch BUILD_RE (py_str text_of build) then Inl (ValueError ''BUILD'')
    else Inr \<lparr>attrs =
           [(''NAME'', VStr n), (''VERSION'', VStr (py_str text_of version)),
            (''BUILD'', VStr (py_str text_of build)), (''OS'', VStr os),
            (''COMPONENTS'', VList components), (''RELEASE'', VNone)],
         unexpected_attrs = []\<rparr>)"
  by (simp add: from_args_def unexpected_keys_def field_keys_def ReleaseInfoContentScheme_def
      bind_kwargs_def lookup_kwarg_def List.map_filter_def construct_def attrs_init_def
      convert_def new_instance_def isinstance_def)

text \<open>
  C6: after the converter \<^verbatim>\<open>str\<close>, the validator of \<^verbatim>\<open>VERSION\<close> accepts a
  value exactly when its text is three runs of digits separated by dots, and the validator
  of \<^verbatim>\<open>BUILD\<close> exactly when its text is one or more digits; the text of a string is
  the string itself. With the other fields well-typed, the construction of a release-info
  instance succeeds exactly when both hold.
\<close>

theorem release_info_field_formats:
  "(run_validator (matches_re VERSION_RE) ''VERSION'' (convert text_of (Some str_converter) version) =
      None \<longleftrightarrow> three_dotted_numbers (py_str text_of version)) \<and>
   (run_validator (matches_re BUILD_RE) ''BUILD'' (convert text_of (Some str_converter) build) =
      None \<longleftrightarrow> digits_only (py_str text_of build)) \<and>
   py_str text_of (VStr s) = s \<and>
   ((\<exists>obj. fst (from_args text_of ReleaseInfoContentScheme
        (VDict [(VStr ''NAME'', VStr n), (VStr ''VERSION'', version), (VStr ''BUILD'', build),
                (VStr ''OS'', VStr os), (VStr ''COMPONENTS'', VList components)])) = Inr obj) \<longleftrightarrow>
      three_dotted_numbers (py_str text_of version) \<and> digits_only (py_str text_of build))"
  unfolding from_args_release_info
  by (simp add: convert_def fullmatch_VERSION_RE_iff fullmatch_BUILD_RE)

theorem release_info_field_formats_witness:
  "run_validator (matches_re VERSION_RE) ''VERSION'' (VStr ''1.2.3'') = None \<and>
   run_validator (matches_re VERSION_RE) ''VERSION'' (VStr ''1.2'') \<noteq> None \<and>
   run_validator (matches_re VERSION_RE) ''VERSION'' (VStr ''1.2.3.4'') \<noteq> None \<and>
   run_validator (matches_re VERSION_RE) ''VERSION'' (VStr ''1.a.3'') \<noteq> None \<and>
   run_validator (matches_re BUILD_RE) ''BUILD'' (VStr ''42'') = None \<and>
   run_validator (matches_re BUILD_RE) ''BUILD'' (VStr ''4a'') \<noteq> None \<and>
   run_validator (matches_re BUILD_RE) ''BUILD'' (VStr '''') \<noteq> None"
proof -
  have version:
    "three_dotted_numbers ''1.2.3''" "\<not> three_dotted_numbers ''1.2''"
    "\<not> three_dotted_numbers ''1.2.3.4''" "\<not> three_dotted_numbers ''1.a.3''"
    by (simp_all add: three_dotted_numbers_def digits_only_def is_digit_def)
  have build: "digits_only ''42''" "\<not> digits_only ''4a''" "\<not> digits_only ''''"
    by (simp_all add: digits_only_def is_digit_def)
  have plain: "convert text_of (Some str_converter) (VStr s) = VStr s" for text_of s
    by (simp add: convert_def)
  note f = release_info_field_formats [where text_of = "\<lambda>v. []", unfolded plain py_str.simps(1)]
  from version build
    f [of "VStr ''1.2.3''" "VStr ''42''"] f [of "VStr ''1.2''" "VStr ''4a''"]
    f [of "VStr ''1.2.3.4''" "VStr ''''"] f [of "VStr ''1.a.3''" "VStr ''42''"]
  show ?thesis by (simp add: convert_def)
qed

subsection \<open>Exceptions that are no validation errors\<close>

lemma example_contents:
  "CONTENT_LOADER example_env YAML (Path True [''repo'', ''OLD.INFO'']) = Inr (VDict (release_info ''2.0''))"
  "CONTENT_LOADER example_env YAML (Path True [''repo'', ''RELEASE.INFO'']) =
     Inr (VDict (release_info ''2.0.1''))"
  by (simp_all add: CONTENT_LOADER_def read_bytes_def example_env_def example_fs_def
      example_loads_def)

lemma example_from_args:
  "fst (from_args text_of ReleaseInfoContentScheme (VDict (release_info ''2.0''))) =
     Inl (ValueError ''VERSION'')"
  "\<exists>obj. fst (from_args text_of ReleaseInfoContentScheme (VDict (release_info ''2.0.1''))) = Inr obj"
  unfolding release_info_def from_args_release_info py_str.simps(1)
  by (simp_all add: fullmatch_VERSION_RE_iff fullmatch_BUILD_RE three_dotted_numbers_def
      digits_only_def is_digit_def)

text \<open>
  C2: \<^verbatim>\<open>ContentFileValidator.validate\<close> catches \<^verbatim>\<open>TypeError\<close> only. The
  release-info content of the end-to-end scenario with the version "2.0" parses, and the
  construction raises the \<^verbatim>\<open>ValueError\<close> of \<^verbatim>\<open>matches_re\<close>, which reaches the
  caller as it is; with the version "2.0.1" the validation succeeds.
\<close>

theorem ContentFileValidator_version_2_0:
  "validate example_env (ContentFileValidator ReleaseInfoContentScheme YAML)
     (Path True [''repo'', ''OLD.INFO'']) = Inl (ValueError ''VERSION'') \<and>
   \<not> is_ValidationError (ValueError ''VERSION'') \<and>
   validate example_env (ContentFileValidator ReleaseInfoContentScheme YAML)
     (Path True [''repo'', ''RELEASE.INFO'']) = Inr ()"
  using example_from_args [of "container_text example_env"]
  by (auto simp: example_contents is_ValidationError_def)

text \<open>
  C1: three calls of \<^verbatim>\<open>validate\<close> that end in an exception other than
  \<^verbatim>\<open>ValidationError\<close>: a \<^verbatim>\<open>HashSumValidator\<close> with
  \<^verbatim>\<open>required=False\<close> on a missing path (the file is opened after the inherited check
  has returned), a \<^verbatim>\<open>ReleaseInfoValidator\<close> on a file whose version is "2.0", and a
  \<^verbatim>\<open>DirValidator\<close> whose scheme holds a \<^verbatim>\<open>FileSchemeValidator\<close> without a
  scheme.
\<close>

theorem validate_raises_other_errors:
  "validate example_env (HashSumValidator False None ''d41d8cd9'' ''md5'')
     (Path True [''repo'', ''absent'']) = Inl (FileNotFoundError (Path True [''repo'', ''absent''])) \<and>
   validate example_env (ReleaseInfoValidator True YAML) (Path True [''repo'', ''OLD.INFO'']) =
     Inl (ValueError ''VERSION'') \<and>
   validate example_env
     (DirValidator (Some [(Path False [''repomd.xml''], FileSchemeValidator None)]) True)
     (Path True [''repo'']) = Inl AttributeError \<and>
   \<not> is_ValidationError (FileNotFoundError (Path True [''repo'', ''absent''])) \<and>
   \<not> is_ValidationError (ValueError ''VERSION'') \<and>
   \<not> is_ValidationError AttributeError"
proof -
  have fs:
    "fs example_env (Path True [''repo'', ''absent'']) = None"
    "fs example_env (Path True [''repo'', ''OLD.INFO'']) = Some (RegularFile ''VERSION: 2.0'')"
    "fs example_env (Path True [''repo'']) = Some Directory"
    by (simp_all add: example_env_def example_fs_def)
  have 1: "validate example_env (HashSumValidator False None ''d41d8cd9'' ''md5'')
     (Path True [''repo'', ''absent'']) = Inl (FileNotFoundError (Path True [''repo'', ''absent'']))"
    by (simp add: fs calc_hash_def read_bytes_def)
  have 2: "validate example_env (ReleaseInfoValidator True YAML) (Path True [''repo'', ''OLD.INFO'']) =
     Inl (ValueError ''VERSION'')"
    using example_from_args(1) [of "container_text example_env"]
    by (simp add: ReleaseInfoValidator_def fs example_contents)
  have 3: "validate example_env
     (DirValidator (Some [(Path False [''repomd.xml''], FileSchemeValidator None)]) True)
     (Path True [''repo'']) = Inl AttributeError"
    by (simp add: fs)
  from 1 2 3 show ?thesis by (simp add: is_ValidationError_def)
qed

lemma bind_args_error: "bind_args cls args = Inl e \<Longrightarrow> \<exists>t. e = TypeError t"
  by (auto simp: bind_args_def split: option.splits list.splits)

lemma bind_kwargs_error: "bind_kwargs cls kwargs = Inl e \<Longrightarrow> \<exists>t. e = TypeError t"
  by (auto simp: bind_kwargs_def split: option.splits list.splits)

lemma construct_error:
  assumes "construct text_of bound = Inl e" and "\<And>e'. bound = Inl e' \<Longrightarrow> \<exists>t. e' = TypeError t"
  shows "(\<exists>t. e = TypeError t) \<or> (\<exists>field. e = ValueError field)"
proof (cases bound)
  case (Inl e')
  with assms show ?thesis by (auto simp: construct_def)
next
  case (Inr b)
  with assms(1) have "attrs_init text_of b = Inl e" by (simp add: construct_def)
  from attrs_init_error [OF this] show ?thesis by blast
qed

lemma from_args_error:
  assumes "fst (from_args text_of cls content) = Inl e"
  shows "(\<exists>t. e = TypeError t) \<or> (\<exists>field. e = ValueError field) \<or>
         e = ValidationError (UnexpectedTopLevel (type_of content))"
proof (cases content)
  case (VDict data)
  from pop_unexpected_from_args [of cls data] obtain unexpected where
    "pop_unexpected (unexpected_keys cls data) [] data =
      (None, unexpected, filter (\<lambda>(k, v). k \<in> set (field_keys cls)) data)"
    by blast
  with assms VDict have
    "new_instance unexpected (construct text_of
       (bind_kwargs cls (filter (\<lambda>(k, v). k \<in> set (field_keys cls)) data))) = Inl e"
    by (simp add: from_args_def)
  then have "construct text_of
       (bind_kwargs cls (filter (\<lambda>(k, v). k \<in> set (field_keys cls)) data)) = Inl e"
    by (simp add: new_instance_def split: sum.splits)
  then show ?thesis using construct_error bind_kwargs_error by blast
next
  case (VList xs)
  with assms have "new_instance [] (construct text_of (bind_args cls xs)) = Inl e"
    by (simp add: from_args_def)
  then have "construct text_of (bind_args cls xs) = Inl e"
    by (simp add: new_instance_def split: sum.splits)
  then show ?thesis using construct_error bind_args_error by blast
qed (use assms in \<open>simp_all add: from_args_def\<close>)

lemma hash_after_file_check:
  assumes "FileValidator_validate env required content_validator p = Inr ()"
    and "calc_hash env p hash_type = Inl e"
  shows "e = FileNotFoundError p"
proof -
  from assms(1) have "fs env p \<noteq> Some Directory"
    by (auto split: if_splits)
  with assms(2) show ?thesis
    by (auto simp: calc_hash_def read_bytes_def split: option.splits fs_entry.splits)
qed

text \<open>
  The exceptions above are the only ones: whatever the validator, the path and the
  environment, a call of \<^verbatim>\<open>validate\<close> that raises, raises
  \<^verbatim>\<open>ValidationError\<close>, \<^verbatim>\<open>AttributeError\<close>, \<^verbatim>\<open>ValueError\<close> or
  \<^verbatim>\<open>FileNotFoundError\<close>.
\<close>

theorem validate_error_kinds:
  "validate env v p = Inl e \<Longrightarrow> escapes e"
proof -
  have "(\<forall>e. FileValidator_validate env required content_validator p = Inl e \<longrightarrow> escapes e)"
    and "(\<forall>e. validate env v p = Inl e \<longrightarrow> escapes e)"
    and "(\<forall>e. validate_items env p items = Inl e \<longrightarrow> escapes e)"
    for required content_validator items
  proof (induction env required content_validator p and env v p and env p items
      rule: FileValidator_validate_validate_validate_items.induct)
    case (1 env required content_validator p)
    then show ?case
      by (auto simp: escapes_def split: if_splits option.splits)
  next
    case (2 env required content_validator p)
    then show ?case by simp
  next
    case (3 env files_scheme required p)
    then show ?case
      by (auto simp: escapes_def split: if_splits option.splits)
  next
    case (4 env scheme p)
    then show ?case
      by (auto simp: escapes_def split: option.splits)
  next
    case (5 env required content_validator hash_sum hash_type p)
    show ?case
    proof (intro allI impI)
      fix e assume e: "validate env (HashSumValidator required content_validator hash_sum hash_type) p = Inl e"
      show "escapes e"
      proof (cases "FileValidator_validate env required content_validator p")
        case (Inl e')
        with e have "e' = e" by simp
        with Inl 5 show ?thesis by blast
      next
        case (Inr u)
        show ?thesis
        proof (cases "calc_hash env p hash_type")
          case (Inl e')
          with Inr e have "e' = e" by simp
          with hash_after_file_check [of env required content_validator p hash_type e'] Inr Inl
          show ?thesis by (simp add: escapes_def)
        next
          case (Inr digest)
          with \<open>FileValidator_validate env required content_validator p = Inr u\<close> e
          show ?thesis by (auto simp: escapes_def split: if_splits)
        qed
      qed
    qed
  next
    case (6 env scheme content_type p)
    show ?case
    proof (intro allI impI)
      fix e assume e: "validate env (ContentFileValidator scheme content_type) p = Inl e"
      show "escapes e"
      proof (cases "CONTENT_LOADER env content_type p")
        case (Inl e')
        with e show ?thesis by (auto simp: escapes_def)
      next
        case (Inr content)
        show ?thesis
        proof (cases "fst (from_args (container_text env) scheme content)")
          case (Inl e')
          from from_args_error [OF this] Inl Inr e show ?thesis
            by (auto simp: escapes_def)
        next
          case (Inr obj)
          with \<open>CONTENT_LOADER env content_type p = Inr content\<close> e show ?thesis by simp
        qed
      qed
    qed
  next
    case (7 env p)
    then show ?case by simp
  next
    case (8 env p sub_path v items)
    then show ?case
      by (auto split: sum.splits)
  qed
  then show "validate env v p = Inl e \<Longrightarrow> escapes e" by blast
qed

end
